theory Spec2Isabelle
  imports Complex_Main "HOL-Library.Log_Nat"
begin

section \<open>LED animations of \<^verbatim>\<open>abstract_hardware_interface/led/animations.py\<close>\<close>

text \<open>
  The module defines seven animation classes. Each \<^verbatim>\<open>start\<close> is a loop that calls the LED
  device (\<^verbatim>\<open>fill\<close>, \<^verbatim>\<open>set_led\<close>, \<^verbatim>\<open>show\<close>) and sleeps on \<^verbatim>\<open>self._delay.wait\<close>; each
  \<^verbatim>\<open>stop\<close> is meant to be called from another thread. The embedding below keeps

  \<^item> every class as a record of its attributes, the two \<^verbatim>\<open>threading.Event\<close> objects
    \<^verbatim>\<open>_delay\<close> and \<^verbatim>\<open>stopping\<close> as the boolean flag they hold;
  \<^item> every \<^verbatim>\<open>start\<close> as a function that returns the sequence of device calls and waits
    it issues (its trace), or \<open>None\<close> when the loop has not ended within the fuel given;
  \<^item> the other thread and the wall clock as an environment that is asked at the places
    where the source reads the flag or the clock.
\<close>

subsection \<open>Python floats\<close>

text \<open>
  Python's \<^verbatim>\<open>float\<close> is IEEE 754 binary64. A finite float is the rational it denotes, and
  every arithmetic result is the exact result rounded to the nearest float, ties to the
  even significand. Exponent overflow (results beyond about \<open>1.8e308\<close>) is not modelled;
  the range below \<open>2 ^ -1022\<close> is rounded on the fixed subnormal grid.
\<close>

definition ilog2 :: "rat \<Rightarrow> int" where
  \<comment> \<open>the integer \<open>e\<close> with \<open>2 ^ e \<le> x < 2 ^ (e + 1)\<close>, for \<open>0 < x\<close>\<close>
  "ilog2 x =
     (let (p, q) = quotient_of x; d = bitlen p - bitlen q
      in if power_int 2 d \<le> x then d else d - 1)"

definition round_half_even :: "rat \<Rightarrow> int" where
  "round_half_even x =
     (let f = \<lfloor>x\<rfloor>; r = x - of_int f
      in if r < 1 / 2 then f
         else if 1 / 2 < r then f + 1
         else if even f then f else f + 1)"

definition fl :: "rat \<Rightarrow> rat" where
  \<comment> \<open>round to nearest binary64: 53 significant bits\<close>
  "fl x =
     (if x = 0 then 0
      else let e = max (ilog2 \<bar>x\<bar>) (- 1022); u = power_int 2 (e - 52)
           in of_int (round_half_even (x / u)) * u)"

definition fadd :: "rat \<Rightarrow> rat \<Rightarrow> rat" where
  "fadd x y = fl (x + y)"

definition fmul :: "rat \<Rightarrow> rat \<Rightarrow> rat" where
  "fmul x y = fl (x * y)"

subsection \<open>Colors, device calls and the device\<close>

text \<open>
  \<^verbatim>\<open>Color\<close> and \<^verbatim>\<open>AbstractLed\<close> come from \<^verbatim>\<open>ovos_plugin_manager\<close>. A color enters the module
  only through \<^verbatim>\<open>as_rgb_tuple()\<close>, so an animation stores that tuple; \<^verbatim>\<open>Color.BLACK\<close> is the
  all-zero tuple.
\<close>

type_synonym rgb = "rat \<times> rat \<times> rat"

definition BLACK :: rgb where
  "BLACK = (0, 0, 0)"

definition scale :: "rat \<Rightarrow> rgb \<Rightarrow> rgb" where
  \<comment> \<open>\<^verbatim>\<open>tuple(brightness * part for part in color.as_rgb_tuple())\<close>\<close>
  "scale brightness c = (case c of (r, g, b) \<Rightarrow>
     (fmul brightness r, fmul brightness g, fmul brightness b))"

text \<open>
  What a running animation does to the outside: the three device calls, a wait on
  \<^verbatim>\<open>self._delay\<close> with the number of seconds it blocked, and a \<^verbatim>\<open>LOG.warning\<close>.
\<close>

datatype event =
    Fill rgb
  | Set_led nat rgb bool
  | Show
  | Wait rat
  | Log_warning string

text \<open>
  Modelled from the spec: the LED device (\<^verbatim>\<open>AbstractLed\<close>, not part of this module).
  It exposes \<^verbatim>\<open>num_leds\<close>, \<^verbatim>\<open>set_led(index, rgb, immediate_show=True)\<close>, \<^verbatim>\<open>fill(rgb)\<close> and
  \<^verbatim>\<open>show()\<close>, which flushes the per-LED writes made with \<^verbatim>\<open>immediate_show=False\<close>.
  \<open>shown\<close> is what the LEDs display, \<open>pending\<close> the writes not flushed yet, oldest first.
  The animations only write indices below \<^verbatim>\<open>num_leds\<close>; a write beyond it changes nothing
  here.
\<close>

record device =
  shown :: "rgb list"
  pending :: "(nat \<times> rgb) list"

definition num_leds :: "device \<Rightarrow> nat" where
  "num_leds d = length (shown d)"

definition dev_show :: "device \<Rightarrow> device" where
  "dev_show d =
     d\<lparr>shown := fold (\<lambda>w xs. xs[fst w := snd w]) (pending d) (shown d), pending := []\<rparr>"

definition dev_set_led :: "nat \<Rightarrow> rgb \<Rightarrow> bool \<Rightarrow> device \<Rightarrow> device" where
  "dev_set_led i c immediate_show d =
     (let d' = d\<lparr>pending := pending d @ [(i, c)]\<rparr>
      in if immediate_show then dev_show d' else d')"

definition dev_fill :: "rgb \<Rightarrow> device \<Rightarrow> device" where
  "dev_fill c d = d\<lparr>shown := replicate (length (shown d)) c, pending := []\<rparr>"

fun exec_event :: "event \<Rightarrow> device \<Rightarrow> device" where
  "exec_event (Fill c) d = dev_fill c d"
| "exec_event (Set_led i c immediate_show) d = dev_set_led i c immediate_show d"
| "exec_event Show d = dev_show d"
| "exec_event (Wait s) d = d"
| "exec_event (Log_warning msg) d = d"

definition exec_trace :: "event list \<Rightarrow> device \<Rightarrow> device" where
  "exec_trace tr d = fold exec_event tr d"

subsection \<open>Events, the other thread and the clock\<close>

text \<open>
  \<^verbatim>\<open>Event.wait(seconds)\<close> returns at once when the event's flag is set and blocks for
  \<^verbatim>\<open>seconds\<close> otherwise. Nothing in the module sets the flag of \<^verbatim>\<open>_delay\<close> while a wait is
  blocked, so these are the two outcomes.
\<close>

definition delay_wait :: "bool \<Rightarrow> rat \<Rightarrow> event" where
  "delay_wait flag seconds = Wait (if flag then 0 else seconds)"

text \<open>
  The environment of one call of \<^verbatim>\<open>start\<close>. Positions count the events \<^verbatim>\<open>start\<close> has issued.

  \<^item> \<open>stop_called env n\<close>: another thread has called \<^verbatim>\<open>stop()\<close> on the instance, after
    \<^verbatim>\<open>start\<close> cleared the flag and before the flag is read with \<open>n\<close> events issued.
    The call is applied to the instance where the source reads \<^verbatim>\<open>stopping.is_set()\<close>.
  \<^item> \<open>deadline_passed env n\<close>: the value of \<^verbatim>\<open>end_time and time() > end_time\<close> read with
    \<open>n\<close> events issued, for an \<^verbatim>\<open>end_time\<close> that is not \<^verbatim>\<open>None\<close>.
\<close>

record env =
  stop_called :: "nat \<Rightarrow> bool"
  deadline_passed :: "nat \<Rightarrow> bool"

definition has_end_time :: "int option \<Rightarrow> bool" where
  \<comment> \<open>\<^verbatim>\<open>end_time = time() + timeout if timeout else None\<close>: is it set?\<close>
  "has_end_time timeout = (case timeout of None \<Rightarrow> False | Some t \<Rightarrow> t \<noteq> 0)"

subsection \<open>\<^verbatim>\<open>BreatheLedAnimation\<close>\<close>

record breathe =
  br_delay_event :: bool
  br_color :: rgb
  br_step :: rat
  br_step_delay :: rat
  br_stopping :: bool

definition BreatheLedAnimation :: "rgb \<Rightarrow> breathe" where
  "BreatheLedAnimation color =
     \<lparr>br_delay_event = False, br_color = color, br_step = fl (1 / 20),
      br_step_delay = fl (1 / 20), br_stopping = False\<rparr>"

definition breathe_stop :: "breathe \<Rightarrow> breathe" where
  "breathe_stop a = a\<lparr>br_stopping := True\<rparr>"

definition breathe_observe :: "env \<Rightarrow> nat \<Rightarrow> breathe \<Rightarrow> breathe" where
  "breathe_observe env n a = (if stop_called env n then breathe_stop a else a)"

fun breathe_loop ::
  "nat \<Rightarrow> env \<Rightarrow> bool \<Rightarrow> bool \<Rightarrow> breathe \<Rightarrow> rat \<Rightarrow> rat \<Rightarrow> bool \<Rightarrow> event list
   \<Rightarrow> event list option" where
  "breathe_loop 0 env end_time one_shot a brightness step ending tr = None"
| "breathe_loop (Suc fuel) env end_time one_shot a brightness step ending tr =
     (let a1 = breathe_observe env (length tr) a
      in if br_stopping a1 then Some tr
         else
           let step1 = (if 1 \<le> brightness then fmul (- 1) (br_step a1)
                        else if brightness \<le> 0 then br_step a1
                        else step);
               brightness1 = fadd brightness step1;
               tr1 = tr @ [Fill (scale brightness1 (br_color a1))];
               tr2 = tr1 @ [delay_wait (br_delay_event a1) (br_step_delay a1)];
               ending1 = (if one_shot \<and> 1 \<le> brightness1 then True else ending);
               a2 = (if one_shot \<and> 1 \<le> brightness1 then a1
                     else if ending \<and> brightness1 \<le> 0 then a1\<lparr>br_stopping := True\<rparr>
                     else if end_time \<and> deadline_passed env (length tr2)
                          then a1\<lparr>br_stopping := True\<rparr>
                     else a1)
           in breathe_loop fuel env end_time one_shot a2 brightness1 step1 ending1 tr2)"

definition breathe_start ::
  "nat \<Rightarrow> env \<Rightarrow> int option \<Rightarrow> bool \<Rightarrow> breathe \<Rightarrow> event list option" where
  "breathe_start fuel env timeout one_shot a =
     (let a0 = a\<lparr>br_stopping := False\<rparr>;
          end_time = has_end_time timeout
      in case breathe_loop fuel env end_time one_shot a0 0 (br_step a0) False [] of
           None \<Rightarrow> None
         | Some tr \<Rightarrow> Some (tr @ [Fill BLACK]))"

subsection \<open>\<^verbatim>\<open>ChaseLedAnimation\<close>\<close>

record chase =
  ch_delay_event :: bool
  ch_foreground_color :: rgb
  ch_background_color :: rgb
  ch_step :: rat
  ch_step_delay :: rat
  ch_stopping :: bool

definition ChaseLedAnimation :: "rgb \<Rightarrow> rgb \<Rightarrow> chase" where
  "ChaseLedAnimation foreground_color background_color =
     \<lparr>ch_delay_event = False, ch_foreground_color = foreground_color,
      ch_background_color = background_color, ch_step = fl (1 / 20),
      ch_step_delay = fl (1 / 10), ch_stopping = False\<rparr>"

definition chase_stop :: "chase \<Rightarrow> chase" where
  "chase_stop a = a\<lparr>ch_stopping := True\<rparr>"

definition chase_observe :: "env \<Rightarrow> nat \<Rightarrow> chase \<Rightarrow> chase" where
  "chase_observe env n a = (if stop_called env n then chase_stop a else a)"

fun chase_sweep :: "chase \<Rightarrow> nat list \<Rightarrow> event list \<Rightarrow> event list" where
  "chase_sweep a [] tr = tr"
| "chase_sweep a (led # leds) tr =
     chase_sweep a leds
       (tr @ [Set_led led (ch_foreground_color a) True,
              delay_wait (ch_delay_event a) (ch_step_delay a),
              Set_led led (ch_background_color a) True])"

fun chase_loop ::
  "nat \<Rightarrow> env \<Rightarrow> nat \<Rightarrow> bool \<Rightarrow> bool \<Rightarrow> chase \<Rightarrow> event list \<Rightarrow> event list option" where
  "chase_loop 0 env n end_time one_shot a tr = None"
| "chase_loop (Suc fuel) env n end_time one_shot a tr =
     (let a1 = chase_observe env (length tr) a
      in if ch_stopping a1 then Some tr
         else
           let tr1 = chase_sweep a1 [0..<n] tr;
               a2 = (if one_shot then a1\<lparr>ch_stopping := True\<rparr>
                     else if end_time \<and> deadline_passed env (length tr1)
                          then a1\<lparr>ch_stopping := True\<rparr>
                     else a1)
           in chase_loop fuel env n end_time one_shot a2 tr1)"

definition chase_start ::
  "nat \<Rightarrow> env \<Rightarrow> nat \<Rightarrow> int option \<Rightarrow> bool \<Rightarrow> chase \<Rightarrow> event list option" where
  "chase_start fuel env n timeout one_shot a =
     (let a0 = a\<lparr>ch_stopping := False\<rparr>;
          end_time = has_end_time timeout;
          tr0 = [Fill (ch_background_color a0)]
      in case chase_loop fuel env n end_time one_shot a0 tr0 of
           None \<Rightarrow> None
         | Some tr \<Rightarrow> Some (tr @ [Fill BLACK]))"

subsection \<open>\<^verbatim>\<open>FillLedAnimation\<close>\<close>

record fill =
  fi_delay_event :: bool
  fi_fill_color :: rgb
  fi_reverse :: bool
  fi_step_delay :: rat

definition FillLedAnimation :: "rgb \<Rightarrow> bool \<Rightarrow> fill" where
  "FillLedAnimation fill_color reverse =
     \<lparr>fi_delay_event = False, fi_fill_color = fill_color, fi_reverse = reverse,
      fi_step_delay = fl (1 / 20)\<rparr>"


fun fill_pass :: "fill \<Rightarrow> nat list \<Rightarrow> event list \<Rightarrow> event list" where
  "fill_pass a [] tr = tr"
| "fill_pass a (led # leds) tr =
     fill_pass a leds
       (tr @ [Set_led led (fi_fill_color a) True,
              delay_wait (fi_delay_event a) (fi_step_delay a)])"

text \<open>
  \<^verbatim>\<open>FillLedAnimation.start\<close> has no loop on \<^verbatim>\<open>stopping\<close> and never reads the clock, so it
  takes no environment and no fuel. It continues the trace it is given, since the
  composite animations call it in the middle of their own run.
\<close>

definition fill_start :: "nat \<Rightarrow> int option \<Rightarrow> bool \<Rightarrow> fill \<Rightarrow> event list \<Rightarrow> event list" where
  "fill_start n timeout one_shot a tr =
     (let tr1 = (if \<not> one_shot \<or> timeout \<noteq> None
                 then tr @ [Log_warning ''Fill animation does not support persistent animation'']
                 else tr);
          leds = [0..<n];
          leds1 = (if fi_reverse a then rev leds else leds)
      in fill_pass a leds1 tr1)"

subsection \<open>\<^verbatim>\<open>RefillLedAnimation\<close>\<close>

record refill =
  re_delay_event :: bool
  re_stopping :: bool
  re_fill_color :: rgb
  re_fill_animation :: fill

definition RefillLedAnimation :: "rgb \<Rightarrow> bool \<Rightarrow> refill" where
  "RefillLedAnimation fill_color reverse =
     \<lparr>re_delay_event = False, re_stopping = False, re_fill_color = fill_color,
      re_fill_animation = FillLedAnimation fill_color reverse\<rparr>"

definition refill_stop :: "refill \<Rightarrow> refill" where
  "refill_stop a = a\<lparr>re_stopping := True\<rparr>"

definition refill_observe :: "env \<Rightarrow> nat \<Rightarrow> refill \<Rightarrow> refill" where
  "refill_observe env n a = (if stop_called env n then refill_stop a else a)"

fun refill_loop ::
  "nat \<Rightarrow> env \<Rightarrow> nat \<Rightarrow> bool \<Rightarrow> bool \<Rightarrow> refill \<Rightarrow> event list \<Rightarrow> event list option" where
  "refill_loop 0 env n end_time one_shot a tr = None"
| "refill_loop (Suc fuel) env n end_time one_shot a tr =
     (let a1 = refill_observe env (length tr) a
      in if re_stopping a1 then Some tr
         else
           let tr1 = fill_start n None True (re_fill_animation a1) tr;
               a2 = a1\<lparr>re_fill_animation := (re_fill_animation a1)\<lparr>fi_fill_color := BLACK\<rparr>\<rparr>;
               tr2 = fill_start n None True (re_fill_animation a2) tr1;
               a3 = a2\<lparr>re_fill_animation :=
                         (re_fill_animation a2)\<lparr>fi_fill_color := re_fill_color a2\<rparr>\<rparr>;
               a4 = (if one_shot then a3\<lparr>re_stopping := True\<rparr>
                     else if end_time \<and> deadline_passed env (length tr2)
                          then a3\<lparr>re_stopping := True\<rparr>
                     else a3)
           in refill_loop fuel env n end_time one_shot a4 tr2)"

definition refill_start ::
  "nat \<Rightarrow> env \<Rightarrow> nat \<Rightarrow> int option \<Rightarrow> bool \<Rightarrow> refill \<Rightarrow> event list option" where
  "refill_start fuel env n timeout one_shot a =
     (let a0 = a\<lparr>re_stopping := False\<rparr>;
          end_time = has_end_time timeout
      in refill_loop fuel env n end_time one_shot a0 [])"

subsection \<open>\<^verbatim>\<open>BounceLedAnimation\<close>\<close>

record bounce =
  bo_delay_event :: bool
  bo_stopping :: bool
  bo_fill_color :: rgb
  bo_fill_animation :: fill

definition BounceLedAnimation :: "rgb \<Rightarrow> bool \<Rightarrow> bounce" where
  "BounceLedAnimation fill_color reverse =
     \<lparr>bo_delay_event = False, bo_stopping = False, bo_fill_color = fill_color,
      bo_fill_animation = FillLedAnimation fill_color reverse\<rparr>"

definition bounce_stop :: "bounce \<Rightarrow> bounce" where
  "bounce_stop a = a\<lparr>bo_stopping := True\<rparr>"

definition bounce_observe :: "env \<Rightarrow> nat \<Rightarrow> bounce \<Rightarrow> bounce" where
  "bounce_observe env n a = (if stop_called env n then bounce_stop a else a)"

fun bounce_loop ::
  "nat \<Rightarrow> env \<Rightarrow> nat \<Rightarrow> bool \<Rightarrow> bool \<Rightarrow> bounce \<Rightarrow> event list \<Rightarrow> event list option" where
  "bounce_loop 0 env n end_time one_shot a tr = None"
| "bounce_loop (Suc fuel) env n end_time one_shot a tr =
     (let a1 = bounce_observe env (length tr) a
      in if bo_stopping a1 then Some tr
         else
           let tr1 = fill_start n None True (bo_fill_animation a1) tr;
               a2 = a1\<lparr>bo_fill_animation :=
                         (bo_fill_animation a1)\<lparr>fi_reverse := \<not> fi_reverse (bo_fill_animation a1)\<rparr>\<rparr>;
               a3 = a2\<lparr>bo_fill_animation := (bo_fill_animation a2)\<lparr>fi_fill_color := BLACK\<rparr>\<rparr>;
               tr2 = fill_start n None True (bo_fill_animation a3) tr1;
               a4 = a3\<lparr>bo_fill_animation :=
                         (bo_fill_animation a3)\<lparr>fi_reverse := \<not> fi_reverse (bo_fill_animation a3)\<rparr>\<rparr>;
               a5 = a4\<lparr>bo_fill_animation :=
                         (bo_fill_animation a4)\<lparr>fi_fill_color := bo_fill_color a4\<rparr>\<rparr>;
               a6 = (if one_shot then a5\<lparr>bo_stopping := True\<rparr>
                     else if end_time \<and> deadline_passed env (length tr2)
                          then a5\<lparr>bo_stopping := True\<rparr>
                     else a5)
           in bounce_loop fuel env n end_time one_shot a6 tr2)"

definition bounce_start ::
  "nat \<Rightarrow> env \<Rightarrow> nat \<Rightarrow> int option \<Rightarrow> bool \<Rightarrow> bounce \<Rightarrow> event list option" where
  "bounce_start fuel env n timeout one_shot a =
     (let a0 = a\<lparr>bo_stopping := False\<rparr>;
          end_time = has_end_time timeout
      in bounce_loop fuel env n end_time one_shot a0 [])"

subsection \<open>\<^verbatim>\<open>BlinkLedAnimation\<close>\<close>

record blink =
  bl_delay_event :: bool
  bl_stopping :: bool
  bl_color :: rgb
  bl_num_blinks :: int
  bl_repeat :: bool

definition BlinkLedAnimation :: "rgb \<Rightarrow> int \<Rightarrow> bool \<Rightarrow> blink" where
  "BlinkLedAnimation color num_blinks repeat =
     \<lparr>bl_delay_event = False, bl_stopping = False, bl_color = color,
      bl_num_blinks = num_blinks, bl_repeat = repeat\<rparr>"

definition blink_stop :: "blink \<Rightarrow> blink" where
  "blink_stop a = a\<lparr>bl_stopping := True\<rparr>"

definition blink_observe :: "env \<Rightarrow> nat \<Rightarrow> blink \<Rightarrow> blink" where
  "blink_observe env n a = (if stop_called env n then blink_stop a else a)"

fun blink_cycle :: "blink \<Rightarrow> nat list \<Rightarrow> event list \<Rightarrow> event list" where
  "blink_cycle a [] tr = tr"
| "blink_cycle a (i # is) tr =
     blink_cycle a is
       (tr @ [Fill (bl_color a), delay_wait (bl_delay_event a) (1 / 4),
              Fill BLACK, delay_wait (bl_delay_event a) (1 / 2)])"

fun blink_loop ::
  "nat \<Rightarrow> env \<Rightarrow> bool \<Rightarrow> bool \<Rightarrow> blink \<Rightarrow> event list \<Rightarrow> event list option" where
  "blink_loop 0 env end_time one_shot a tr = None"
| "blink_loop (Suc fuel) env end_time one_shot a tr =
     (let a1 = blink_observe env (length tr) a
      in if bl_stopping a1 then Some tr
         else
           let tr1 = blink_cycle a1 [0..<nat (bl_num_blinks a1)] tr;
               a2 = (if one_shot then a1\<lparr>bl_stopping := True\<rparr>
                     else if bl_repeat a1 then a1
                     else a1\<lparr>bl_stopping := True\<rparr>);
               tr2 = (if \<not> one_shot \<and> bl_repeat a1
                      then tr1 @ [delay_wait (bl_delay_event a1) 2]
                      else tr1);
               a3 = (if end_time \<and> deadline_passed env (length tr2)
                     then a2\<lparr>bl_stopping := True\<rparr>
                     else a2)
           in blink_loop fuel env end_time one_shot a3 tr2)"

definition blink_start ::
  "nat \<Rightarrow> env \<Rightarrow> int option \<Rightarrow> bool \<Rightarrow> blink \<Rightarrow> event list option" where
  "blink_start fuel env timeout one_shot a =
     (let a0 = a\<lparr>bl_stopping := False\<rparr>;
          end_time = has_end_time timeout;
          tr0 = [Fill BLACK, delay_wait (bl_delay_event a0) (1 / 2)]
      in blink_loop fuel env end_time one_shot a0 tr0)"

subsection \<open>\<^verbatim>\<open>AlternatingLedAnimation\<close>\<close>

record alternating =
  al_delay_event :: bool
  al_stopping :: bool
  al_color :: rgb
  al_delay :: rat

definition AlternatingLedAnimation :: "rgb \<Rightarrow> alternating" where
  "AlternatingLedAnimation color =
     \<lparr>al_delay_event = False, al_stopping = False, al_color = color, al_delay = 1 / 2\<rparr>"

definition alternating_stop :: "alternating \<Rightarrow> alternating" where
  "alternating_stop a = a\<lparr>al_stopping := True\<rparr>"

definition alternating_observe :: "env \<Rightarrow> nat \<Rightarrow> alternating \<Rightarrow> alternating" where
  "alternating_observe env n a = (if stop_called env n then alternating_stop a else a)"

fun alternating_frame :: "alternating \<Rightarrow> bool \<Rightarrow> nat list \<Rightarrow> event list \<Rightarrow> event list" where
  "alternating_frame a evens [] tr = tr"
| "alternating_frame a evens (led # leds) tr =
     alternating_frame a evens leds
       (tr @ [if evens \<and> led mod 2 = 0 then Set_led led (al_color a) False
              else if \<not> evens \<and> led mod 2 = 1 then Set_led led (al_color a) False
              else Set_led led BLACK False])"

fun alternating_loop ::
  "nat \<Rightarrow> env \<Rightarrow> nat \<Rightarrow> bool \<Rightarrow> bool \<Rightarrow> alternating \<Rightarrow> bool \<Rightarrow> event list
   \<Rightarrow> event list option" where
  "alternating_loop 0 env n end_time one_shot a evens tr = None"
| "alternating_loop (Suc fuel) env n end_time one_shot a evens tr =
     (let a1 = alternating_observe env (length tr) a
      in if al_stopping a1 then Some tr
         else
           let tr1 = alternating_frame a1 evens [0..<n] tr;
               tr2 = tr1 @ [Show];
               tr3 = tr2 @ [delay_wait (al_delay_event a1) (al_delay a1)];
               evens1 = (\<not> evens);
               a2 = (if one_shot \<and> evens1 then a1\<lparr>al_stopping := True\<rparr>
                     else if end_time \<and> deadline_passed env (length tr3)
                          then a1\<lparr>al_stopping := True\<rparr>
                     else a1)
           in alternating_loop fuel env n end_time one_shot a2 evens1 tr3)"

definition alternating_start ::
  "nat \<Rightarrow> env \<Rightarrow> nat \<Rightarrow> int option \<Rightarrow> bool \<Rightarrow> alternating \<Rightarrow> event list option" where
  "alternating_start fuel env n timeout one_shot a =
     (let tr0 = [Fill BLACK];
          a0 = a\<lparr>al_stopping := False\<rparr>;
          end_time = has_end_time timeout
      in case alternating_loop fuel env n end_time one_shot a0 True tr0 of
           None \<Rightarrow> None
         | Some tr \<Rightarrow> Some (tr @ [Fill BLACK]))"

subsection \<open>Runs that have not ended\<close>

text \<open>
  A call of \<^verbatim>\<open>start\<close> that never leaves its loop returns nothing, but it has issued
  events. \<open>blink_issued\<close> and \<open>alternating_issued\<close> run the loops of \<^verbatim>\<open>BlinkLedAnimation.start\<close>
  and \<^verbatim>\<open>AlternatingLedAnimation.start\<close> pass for pass, as \<open>blink_loop\<close> and
  \<open>alternating_loop\<close> do, and give the events issued once the loop has ended or has made
  \<open>fuel\<close> passes, whichever comes first. The closing off fill of
  \<^verbatim>\<open>AlternatingLedAnimation.start\<close> comes after the loop and is not part of them.
\<close>

fun blink_issued ::
  "nat \<Rightarrow> env \<Rightarrow> bool \<Rightarrow> bool \<Rightarrow> blink \<Rightarrow> event list \<Rightarrow> event list" where
  "blink_issued 0 env end_time one_shot a tr = tr"
| "blink_issued (Suc fuel) env end_time one_shot a tr =
     (let a1 = blink_observe env (length tr) a
      in if bl_stopping a1 then tr
         else
           let tr1 = blink_cycle a1 [0..<nat (bl_num_blinks a1)] tr;
               a2 = (if one_shot then a1\<lparr>bl_stopping := True\<rparr>
                     else if bl_repeat a1 then a1
                     else a1\<lparr>bl_stopping := True\<rparr>);
               tr2 = (if \<not> one_shot \<and> bl_repeat a1
                      then tr1 @ [delay_wait (bl_delay_event a1) 2]
                      else tr1);
               a3 = (if end_time \<and> deadline_passed env (length tr2)
                     then a2\<lparr>bl_stopping := True\<rparr>
                     else a2)
           in blink_issued fuel env end_time one_shot a3 tr2)"

definition blink_start_issued ::
  "nat \<Rightarrow> env \<Rightarrow> int option \<Rightarrow> bool \<Rightarrow> blink \<Rightarrow> event list" where
  "blink_start_issued fuel env timeout one_shot a =
     (let a0 = a\<lparr>bl_stopping := False\<rparr>;
          end_time = has_end_time timeout;
          tr0 = [Fill BLACK, delay_wait (bl_delay_event a0) (1 / 2)]
      in blink_issued fuel env end_time one_shot a0 tr0)"

fun alternating_issued ::
  "nat \<Rightarrow> env \<Rightarrow> nat \<Rightarrow> bool \<Rightarrow> bool \<Rightarrow> alternating \<Rightarrow> bool \<Rightarrow> event list
   \<Rightarrow> event list" where
  "alternating_issued 0 env n end_time one_shot a evens tr = tr"
| "alternating_issued (Suc fuel) env n end_time one_shot a evens tr =
     (let a1 = alternating_observe env (length tr) a
      in if al_stopping a1 then tr
         else
           let tr1 = alternating_frame a1 evens [0..<n] tr;
               tr2 = tr1 @ [Show];
               tr3 = tr2 @ [delay_wait (al_delay_event a1) (al_delay a1)];
               evens1 = (\<not> evens);
               a2 = (if one_shot \<and> evens1 then a1\<lparr>al_stopping := True\<rparr>
                     else if end_time \<and> deadline_passed env (length tr3)
                          then a1\<lparr>al_stopping := True\<rparr>
                     else a1)
           in alternating_issued fuel env n end_time one_shot a2 evens1 tr3)"

definition alternating_start_issued ::
  "nat \<Rightarrow> env \<Rightarrow> nat \<Rightarrow> int option \<Rightarrow> bool \<Rightarrow> alternating \<Rightarrow> event list" where
  "alternating_start_issued fuel env n timeout one_shot a =
     (let tr0 = [Fill BLACK];
          a0 = a\<lparr>al_stopping := False\<rparr>;
          end_time = has_end_time timeout
      in alternating_issued fuel env n end_time one_shot a0 True tr0)"

subsection \<open>Wait-steps\<close>


section \<open>Properties\<close>

subsection \<open>The inner loops in closed form\<close>


lemma fill_pass_eq:
  "fill_pass a leds tr =
     tr @ concat (map (\<lambda>led. [Set_led led (fi_fill_color a) True,
                                delay_wait (fi_delay_event a) (fi_step_delay a)]) leds)"
  by (induction leds arbitrary: tr) simp_all

lemma blink_cycle_eq:
  "blink_cycle a is tr =
     tr @ concat (map (\<lambda>i. [Fill (bl_color a), delay_wait (bl_delay_event a) (1 / 4),
                              Fill BLACK, delay_wait (bl_delay_event a) (1 / 2)]) is)"
  by (induction "is" arbitrary: tr) simp_all

lemma alternating_frame_eq:
  "alternating_frame a evens leds tr =
     tr @ map (\<lambda>led. Set_led led (if even led = evens then al_color a else BLACK) False) leds"
  by (induction leds arbitrary: tr) (auto simp: even_iff_mod_2_eq_zero odd_iff_mod_2_eq_one)

subsection \<open>Chase\<close>

text \<open>
  Claim C6. On a device with four LEDs, \<^verbatim>\<open>ChaseLedAnimation.start(one_shot=True)\<close> with no
  timeout and no call of \<^verbatim>\<open>stop()\<close> returns, and after the opening background fill it
  issues exactly four pairs of \<^verbatim>\<open>set_led\<close> calls (foreground, wait, back to background),
  one pair per index in the order 0, 1, 2, 3, followed by a fill with the off color.
\<close>

theorem chase_one_shot_four_leds:
  "chase_start (Suc (Suc k)) \<lparr>stop_called = (\<lambda>n. False), deadline_passed = dp\<rparr> 4 None True
     (ChaseLedAnimation fg bg) =
   Some [Fill bg,
         Set_led 0 fg True, Wait (fl (1 / 10)), Set_led 0 bg True,
         Set_led 1 fg True, Wait (fl (1 / 10)), Set_led 1 bg True,
         Set_led 2 fg True, Wait (fl (1 / 10)), Set_led 2 bg True,
         Set_led 3 fg True, Wait (fl (1 / 10)), Set_led 3 bg True,
         Fill BLACK]"
proof -
  have leds: "[0..<(4::nat)] = [0, 1, 2, 3]"
    by code_simp
  show ?thesis
    by (simp add: chase_start_def ChaseLedAnimation_def chase_observe_def has_end_time_def
        delay_wait_def leds)
qed

theorem chase_one_shot_four_leds_witness:
  "chase_start 2 \<lparr>stop_called = (\<lambda>n. False), deadline_passed = (\<lambda>n. False)\<rparr> 4 None True
     (ChaseLedAnimation (255, 0, 0) BLACK) =
   Some [Fill BLACK,
         Set_led 0 (255, 0, 0) True, Wait (fl (1 / 10)), Set_led 0 BLACK True,
         Set_led 1 (255, 0, 0) True, Wait (fl (1 / 10)), Set_led 1 BLACK True,
         Set_led 2 (255, 0, 0) True, Wait (fl (1 / 10)), Set_led 2 BLACK True,
         Set_led 3 (255, 0, 0) True, Wait (fl (1 / 10)), Set_led 3 BLACK True,
         Fill BLACK]"
  using chase_one_shot_four_leds [of 0 "\<lambda>n. False" "(255, 0, 0)" BLACK]
  by (simp add: numeral_2_eq_2)

subsection \<open>Blink\<close>

lemma blink_loop_extends:
  "blink_loop fuel env end_time one_shot a tr = Some tr' \<Longrightarrow> \<exists>xs. tr' = tr @ xs"
proof (induction fuel arbitrary: a tr)
  case 0
  then show ?case by simp
next
  case (Suc fuel)
  show ?case
  proof (cases "bl_stopping (blink_observe env (length tr) a)")
    case True
    with Suc.prems show ?thesis by simp
  next
    case False
    with Suc.prems obtain a3 ys where
      "blink_loop fuel env end_time one_shot a3 (tr @ ys) = Some tr'"
      by (auto simp: Let_def blink_cycle_eq split: if_splits)
    from Suc.IH [OF this] show ?thesis by auto
  qed
qed

text \<open>
  Claim C8. \<^verbatim>\<open>BlinkLedAnimation\<close> with \<^verbatim>\<open>num_blinks=3\<close> and \<^verbatim>\<open>repeat=False\<close>, started with
  \<^verbatim>\<open>one_shot=False\<close>, no timeout and no call of \<^verbatim>\<open>stop()\<close>, returns after exactly three
  on/off pairs (fill with the color, wait, fill with the off color, wait). No two-second
  pause between cycles follows the third pair, and the last fill is the off color.
\<close>

theorem blink_three_no_repeat:
  "blink_start (Suc (Suc k)) \<lparr>stop_called = (\<lambda>n. False), deadline_passed = dp\<rparr> None False
     (BlinkLedAnimation c 3 False) =
   Some [Fill BLACK, Wait (1 / 2),
         Fill c, Wait (1 / 4), Fill BLACK, Wait (1 / 2),
         Fill c, Wait (1 / 4), Fill BLACK, Wait (1 / 2),
         Fill c, Wait (1 / 4), Fill BLACK, Wait (1 / 2)]"
proof -
  have blinks: "[0..<(3::nat)] = [0, 1, 2]"
    by code_simp
  show ?thesis
    by (simp add: blink_start_def BlinkLedAnimation_def blink_observe_def has_end_time_def
        delay_wait_def blinks)
qed

theorem blink_three_no_repeat_witness:
  "blink_start 2 \<lparr>stop_called = (\<lambda>n. False), deadline_passed = (\<lambda>n. False)\<rparr> None False
     (BlinkLedAnimation (0, 0, 255) 3 False) =
   Some [Fill BLACK, Wait (1 / 2),
         Fill (0, 0, 255), Wait (1 / 4), Fill BLACK, Wait (1 / 2),
         Fill (0, 0, 255), Wait (1 / 4), Fill BLACK, Wait (1 / 2),
         Fill (0, 0, 255), Wait (1 / 4), Fill BLACK, Wait (1 / 2)]"
  using blink_three_no_repeat [of 0 "\<lambda>n. False" "(0, 0, 255)"]
  by (simp add: numeral_2_eq_2)

subsection \<open>Blink: every run\<close>

lemma blink_issued_extends:
  "\<exists>xs. blink_issued fuel env end_time one_shot a tr = tr @ xs"
proof (induction fuel arbitrary: a tr)
  case 0
  show ?case by simp
next
  case (Suc fuel)
  show ?case
  proof (cases "bl_stopping (blink_observe env (length tr) a)")
    case True
    then show ?thesis by simp
  next
    case False
    have "\<exists>a3 ys. blink_issued (Suc fuel) env end_time one_shot a tr =
       blink_issued fuel env end_time one_shot a3 (tr @ ys)"
    proof (cases "\<not> one_shot \<and> bl_repeat (blink_observe env (length tr) a)")
      case True
      with False show ?thesis
        by (simp add: Let_def blink_cycle_eq) blast
    next
      case no_pause: False
      with False show ?thesis
        by (simp add: Let_def blink_cycle_eq) blast
    qed
    then obtain a3 ys where
      "blink_issued (Suc fuel) env end_time one_shot a tr =
       blink_issued fuel env end_time one_shot a3 (tr @ ys)"
      by blast
    with Suc.IH [of a3 "tr @ ys"] show ?thesis by auto
  qed
qed

lemma blink_loop_issued:
  "blink_loop fuel env end_time one_shot a tr = Some tr' \<Longrightarrow>
   blink_issued fuel env end_time one_shot a tr = tr'"
proof (induction fuel arbitrary: a tr)
  case 0
  then show ?case by simp
next
  case (Suc fuel)
  show ?case
  proof (cases "bl_stopping (blink_observe env (length tr) a)")
    case True
    with Suc.prems show ?thesis by simp
  next
    case False
    with Suc.prems Suc.IH show ?thesis
      by (simp add: Let_def)
  qed
qed

lemma blink_loop_stopped:
  "bl_stopping a \<Longrightarrow> blink_loop (Suc fuel) env end_time one_shot a tr = Some tr"
  by (simp add: blink_observe_def blink_stop_def)

lemma blink_loop_returns:
  "stop_called env = (\<lambda>i. j \<le> i) \<Longrightarrow> j \<le> length tr + fuel \<Longrightarrow>
   blink_loop (Suc (Suc fuel)) env end_time one_shot a tr \<noteq> None"
proof (induction fuel arbitrary: a tr)
  case 0
  then have "stop_called env (length tr)" by simp
  then show ?case
    by (simp add: blink_observe_def blink_stop_def)
next
  case (Suc fuel)
  show ?case
  proof (cases "bl_stopping (blink_observe env (length tr) a)")
    case True
    then show ?thesis by simp
  next
    case False
    have lt: "length tr < j"
    proof (rule ccontr)
      assume "\<not> length tr < j"
      then have "stop_called env (length tr)"
        by (simp add: Suc.prems(1))
      with False show False
        by (simp add: blink_observe_def blink_stop_def)
    qed
    obtain a3 ys where
      step: "blink_loop (Suc (Suc (Suc fuel))) env end_time one_shot a tr =
             blink_loop (Suc (Suc fuel)) env end_time one_shot a3 (tr @ ys)"
      and progress: "ys \<noteq> [] \<or> bl_stopping a3"
    proof -
      define a1 where "a1 = blink_observe env (length tr) a"
      define ys where "ys =
        concat (map (\<lambda>i. [Fill (bl_color a1), delay_wait (bl_delay_event a1) (1 / 4),
                            Fill BLACK, delay_wait (bl_delay_event a1) (1 / 2)])
                  [0..<nat (bl_num_blinks a1)])
        @ (if \<not> one_shot \<and> bl_repeat a1 then [delay_wait (bl_delay_event a1) 2] else [])"
      define a2 where "a2 = (if one_shot then a1\<lparr>bl_stopping := True\<rparr>
                     else if bl_repeat a1 then a1
                     else a1\<lparr>bl_stopping := True\<rparr>)"
      define a3 where "a3 = (if end_time \<and> deadline_passed env (length (tr @ ys))
                     then a2\<lparr>bl_stopping := True\<rparr> else a2)"
      have "blink_loop (Suc (Suc (Suc fuel))) env end_time one_shot a tr =
             blink_loop (Suc (Suc fuel)) env end_time one_shot a3 (tr @ ys)"
        using False
        by (subst blink_loop.simps)
          (simp add: Let_def blink_cycle_eq a1_def ys_def a2_def a3_def del: blink_loop.simps)
      moreover have "ys \<noteq> [] \<or> bl_stopping a3"
        by (auto simp: ys_def a2_def a3_def)
      ultimately show ?thesis by (rule that)
    qed
    from progress show ?thesis
    proof
      assume "ys \<noteq> []"
      then have "0 < length ys" by simp
      with lt Suc.prems(2) have "j \<le> length tr + length ys + fuel" by linarith
      then have "j \<le> length (tr @ ys) + fuel" by simp
      from Suc.IH [OF Suc.prems(1) this] show ?thesis
        unfolding step .
    next
      assume "bl_stopping a3"
      then show ?thesis
        unfolding step by (simp only: blink_loop_stopped) simp
    qed
  qed
qed

lemma blink_loop_returns_once:
  "one_shot \<or> \<not> bl_repeat a \<Longrightarrow>
   blink_loop (Suc (Suc k)) env end_time one_shot a tr \<noteq> None"
  by (auto simp: Let_def blink_observe_def blink_stop_def)

text \<open>
  Claim C10. Whatever its parameters, a run of \<^verbatim>\<open>BlinkLedAnimation.start\<close> begins by
  filling all LEDs with the off color and waiting the fixed pre-delay of half a second:
  the first device call is an off fill, not the requested color. This holds for the
  events issued by every run, after any number of passes of the loop, whether the run
  ever returns or not; a run that returns has issued exactly the trace it returns. A run
  returns whenever \<^verbatim>\<open>stop()\<close> is called at some point, and without \<^verbatim>\<open>stop()\<close> when it is
  one-shot or does not repeat.
\<close>

theorem blink_begins_with_off_fill:
  "take 2 (blink_start_issued fuel env timeout one_shot (BlinkLedAnimation color num_blinks repeat))
     = [Fill BLACK, Wait (1 / 2)]
   \<and> (blink_start fuel env timeout one_shot (BlinkLedAnimation color num_blinks repeat) = Some tr
        \<longrightarrow> tr = blink_start_issued fuel env timeout one_shot
                   (BlinkLedAnimation color num_blinks repeat))
   \<and> blink_start (Suc (Suc j)) \<lparr>stop_called = (\<lambda>i. j \<le> i), deadline_passed = dp\<rparr> timeout
        one_shot (BlinkLedAnimation color num_blinks repeat) \<noteq> None
   \<and> (one_shot \<or> \<not> repeat \<longrightarrow>
        blink_start (Suc (Suc k)) env timeout one_shot (BlinkLedAnimation color num_blinks repeat)
          \<noteq> None)"
proof (intro conjI impI)
  let ?a = "BlinkLedAnimation color num_blinks repeat"
  obtain xs where "blink_issued fuel env (has_end_time timeout) one_shot
      (?a\<lparr>bl_stopping := False\<rparr>) [Fill BLACK, Wait (1 / 2)] = [Fill BLACK, Wait (1 / 2)] @ xs"
    using blink_issued_extends by blast
  then show "take 2 (blink_start_issued fuel env timeout one_shot ?a) = [Fill BLACK, Wait (1 / 2)]"
    by (simp add: blink_start_issued_def BlinkLedAnimation_def delay_wait_def)
next
  let ?a = "BlinkLedAnimation color num_blinks repeat"
  assume "blink_start fuel env timeout one_shot ?a = Some tr"
  then have "blink_loop fuel env (has_end_time timeout) one_shot (?a\<lparr>bl_stopping := False\<rparr>)
      [Fill BLACK, delay_wait (bl_delay_event (?a\<lparr>bl_stopping := False\<rparr>)) (1 / 2)] = Some tr"
    by (simp add: blink_start_def)
  from blink_loop_issued [OF this]
  show "tr = blink_start_issued fuel env timeout one_shot ?a"
    by (simp add: blink_start_issued_def)
next
  show "blink_start (Suc (Suc j)) \<lparr>stop_called = (\<lambda>i. j \<le> i), deadline_passed = dp\<rparr> timeout
        one_shot (BlinkLedAnimation color num_blinks repeat) \<noteq> None"
    unfolding blink_start_def Let_def
    by (rule blink_loop_returns [where j = j]) simp_all
next
  assume "one_shot \<or> \<not> repeat"
  then show "blink_start (Suc (Suc k)) env timeout one_shot
      (BlinkLedAnimation color num_blinks repeat) \<noteq> None"
    unfolding blink_start_def Let_def
    by (intro blink_loop_returns_once) (simp add: BlinkLedAnimation_def)
qed

theorem blink_begins_with_off_fill_witness:
  "blink_start 2 \<lparr>stop_called = (\<lambda>i. False), deadline_passed = (\<lambda>i. False)\<rparr> None False
     (BlinkLedAnimation (0, 255, 0) 1 False) =
     Some [Fill BLACK, Wait (1 / 2), Fill (0, 255, 0), Wait (1 / 4), Fill BLACK, Wait (1 / 2)]
   \<and> take 2 (blink_start_issued 2 \<lparr>stop_called = (\<lambda>i. False), deadline_passed = (\<lambda>i. False)\<rparr>
        None False (BlinkLedAnimation (0, 255, 0) 1 False)) = [Fill BLACK, Wait (1 / 2)]
   \<and> blink_start_issued 2 \<lparr>stop_called = (\<lambda>i. False), deadline_passed = (\<lambda>i. False)\<rparr>
        None False (BlinkLedAnimation (0, 255, 0) 1 False) =
     [Fill BLACK, Wait (1 / 2), Fill (0, 255, 0), Wait (1 / 4), Fill BLACK, Wait (1 / 2)]"
proof -
  let ?env = "\<lparr>stop_called = (\<lambda>i. False), deadline_passed = (\<lambda>i. False)\<rparr>"
  let ?tr = "[Fill BLACK, Wait (1 / 2), Fill (0, 255, 0), Wait (1 / 4), Fill BLACK, Wait (1 / 2)]"
  have one: "[0..<(1::nat)] = [0]"
    by simp
  have run: "blink_start 2 ?env None False (BlinkLedAnimation (0, 255, 0) 1 False) = Some ?tr"
    by (simp add: blink_start_def BlinkLedAnimation_def blink_observe_def has_end_time_def
        delay_wait_def numeral_2_eq_2)
  note w = blink_begins_with_off_fill [of 2 ?env None False "(0, 255, 0)" 1 False ?tr 0
      "\<lambda>i. False" 0]
  from w have first: "take 2 (blink_start_issued 2 ?env None False
      (BlinkLedAnimation (0, 255, 0) 1 False)) = [Fill BLACK, Wait (1 / 2)]"
    by (rule conjunct1)
  from w run have same: "?tr = blink_start_issued 2 ?env None False
      (BlinkLedAnimation (0, 255, 0) 1 False)"
    by blast
  show ?thesis
    using run first same by simp
qed

subsection \<open>Rounding to the nearest float\<close>

text \<open>
  \<open>ilog2\<close> finds the binade of a positive rational, and a rational that lies within half a
  unit in the last place of \<open>m * 2 ^ (e - 52)\<close> (on a tie: with \<open>m\<close> even) rounds to it.
  The sums of the breathing animation are instances.
\<close>

lemma ilog2_bounds:
  assumes "0 < x"
  shows "power_int 2 (ilog2 x) \<le> x \<and> x < power_int 2 (ilog2 x + 1)"
proof -
  obtain p q where pq: "quotient_of x = (p, q)"
    by (cases "quotient_of x") auto
  have q: "0 < q" using pq by (rule quotient_of_denom_pos)
  have x: "x = of_int p / of_int q" using pq by (rule quotient_of_div)
  have p: "0 < p"
    using assms q x by (simp add: zero_less_divide_iff)
  define bp where "bp = bitlen p"
  define bq where "bq = bitlen q"
  have bp: "2 ^ nat (bp - 1) \<le> p" "p < 2 ^ nat bp"
    using bitlen_bounds [OF p] by (simp_all add: bp_def)
  have bq: "2 ^ nat (bq - 1) \<le> q" "q < 2 ^ nat bq"
    using bitlen_bounds [OF q] by (simp_all add: bq_def)
  have bp1: "1 \<le> bp"
    using bitlen_eq_zero_iff [of p] bitlen_nonneg [of p] p by (simp add: bp_def)
  have bq1: "1 \<le> bq"
    using bitlen_eq_zero_iff [of q] bitlen_nonneg [of q] q by (simp add: bq_def)
  have P_lo: "power_int 2 (bp - 1) \<le> (of_int p :: rat)"
  proof -
    have "of_int (2 ^ nat (bp - 1)) \<le> (of_int p :: rat)"
      using bp(1) by (simp only: of_int_le_iff)
    then show ?thesis using bp1 by (simp add: power_int_def)
  qed
  have P_hi: "(of_int p :: rat) < power_int 2 bp"
  proof -
    have "(of_int p :: rat) < of_int (2 ^ nat bp)"
      using bp(2) by (simp only: of_int_less_iff)
    then show ?thesis using bp1 by (simp add: power_int_def)
  qed
  have Q_lo: "power_int 2 (bq - 1) \<le> (of_int q :: rat)"
  proof -
    have "of_int (2 ^ nat (bq - 1)) \<le> (of_int q :: rat)"
      using bq(1) by (simp only: of_int_le_iff)
    then show ?thesis using bq1 by (simp add: power_int_def)
  qed
  have Q_hi: "(of_int q :: rat) \<le> power_int 2 bq"
  proof -
    have "(of_int q :: rat) < of_int (2 ^ nat bq)"
      using bq(2) by (simp only: of_int_less_iff)
    then show ?thesis using bq1 by (simp add: power_int_def)
  qed
  have up: "x < power_int 2 (bp - bq + 1)"
  proof -
    have "of_int p / of_int q < (power_int 2 bp :: rat) / power_int 2 (bq - 1)"
      using P_hi Q_lo p by (intro frac_less) simp_all
    also have "\<dots> = power_int 2 (bp - (bq - 1))"
      by (simp add: power_int_diff)
    finally show ?thesis by (simp add: x algebra_simps)
  qed
  have low: "power_int 2 (bp - bq - 1) \<le> x"
  proof -
    have "(power_int 2 (bp - 1) :: rat) / power_int 2 bq \<le> of_int p / of_int q"
      using P_lo Q_hi p q by (intro frac_le) simp_all
    moreover have "(power_int 2 (bp - 1) :: rat) / power_int 2 bq = power_int 2 (bp - 1 - bq)"
      by (simp add: power_int_diff)
    ultimately show ?thesis by (simp add: x algebra_simps)
  qed
  have il: "ilog2 x = (if power_int 2 (bp - bq) \<le> x then bp - bq else bp - bq - 1)"
    by (simp add: ilog2_def pq bp_def bq_def Let_def)
  show ?thesis
  proof (cases "power_int 2 (bp - bq) \<le> x")
    case True
    then show ?thesis using up il by simp
  next
    case False
    then show ?thesis using low il by simp
  qed
qed

lemma ilog2_unique:
  assumes "0 < x" "power_int 2 e \<le> x" "x < power_int 2 (e + 1)"
  shows "ilog2 x = e"
proof -
  define i where "i = ilog2 x"
  have b: "power_int 2 i \<le> x" "x < power_int 2 (i + 1)"
    using ilog2_bounds [OF assms(1)] by (simp_all add: i_def)
  have "\<not> i < e"
  proof
    assume "i < e"
    then have "power_int (2::rat) (i + 1) \<le> power_int 2 e"
      by (intro power_int_increasing) simp_all
    with b(2) assms(2) show False by simp
  qed
  moreover have "\<not> e < i"
  proof
    assume "e < i"
    then have "power_int (2::rat) (e + 1) \<le> power_int 2 i"
      by (intro power_int_increasing) simp_all
    with b(1) assms(3) show False by simp
  qed
  ultimately show ?thesis by (simp add: i_def)
qed

lemma round_half_even_eq:
  assumes "\<bar>y - of_int m\<bar> < 1 / 2 \<or> (\<bar>y - of_int m\<bar> = 1 / 2 \<and> even m)"
  shows "round_half_even y = m"
proof -
  define f where "f = \<lfloor>y\<rfloor>"
  have f: "of_int f \<le> y" "y < of_int f + 1"
    by (simp_all add: f_def) linarith
  have "m = f \<or> m = f + 1"
  proof -
    from assms have "\<bar>y - of_int m\<bar> \<le> 1 / 2" by auto
    then have "of_int m - 1 / 2 \<le> y" "y \<le> of_int m + 1 / 2" by linarith+
    with f have "(of_int m :: rat) < of_int f + 2" "(of_int f :: rat) < of_int m + 1"
      by linarith+
    then have "m < f + 2" "f < m + 1"
      by (metis of_int_less_iff of_int_add of_int_numeral, metis of_int_less_iff of_int_add of_int_1)
    then show ?thesis by linarith
  qed
  then show ?thesis
  proof
    assume mf: "m = f"
    with assms f have "y - of_int f < 1 / 2 \<or> (y - of_int f = 1 / 2 \<and> even f)"
      by (auto; linarith)
    then show ?thesis
      by (auto simp: round_half_even_def Let_def mf simp flip: f_def)
  next
    assume mf: "m = f + 1"
    with assms f have "1 / 2 < y - of_int f \<or> (y - of_int f = 1 / 2 \<and> odd f)"
      by (auto; linarith)
    then show ?thesis
      by (auto simp: round_half_even_def Let_def mf simp flip: f_def)
  qed
qed

lemma fl_eqI:
  assumes "power_int 2 e \<le> \<bar>x\<bar>" "\<bar>x\<bar> < power_int 2 (e + 1)" "- 1022 \<le> e"
    and "\<bar>x / power_int 2 (e - 52) - of_int m\<bar> < 1 / 2
         \<or> (\<bar>x / power_int 2 (e - 52) - of_int m\<bar> = 1 / 2 \<and> even m)"
  shows "fl x = of_int m * power_int 2 (e - 52)"
proof -
  have pos: "0 < \<bar>x\<bar>"
    using assms(1) zero_less_power_int [of "2::rat" e] by linarith
  then have nz: "x \<noteq> 0" by simp
  have "ilog2 \<bar>x\<bar> = e"
    using pos assms(1,2) by (rule ilog2_unique)
  then show ?thesis
    using nz assms(3) round_half_even_eq [OF assms(4)]
    by (simp add: fl_def Let_def max_def)
qed


subsection \<open>Breathe\<close>

text \<open>The float additions of one up-and-down sweep, starting from the integer \<open>0\<close>.\<close>

lemma float_step:
  "fl (1 / 20) = 3602879701896397 / 72057594037927936"
  unfolding fadd_def fmul_def
  by (rule trans [OF fl_eqI [where e = "- 5" and m = "7205759403792794"]]) simp_all

lemma float_neg_step:
  "fmul (- 1) (3602879701896397 / 72057594037927936) = - (3602879701896397 / 72057594037927936)"
  unfolding fadd_def fmul_def
  by (rule trans [OF fl_eqI [where e = "- 5" and m = "- 7205759403792794"]]) simp_all

lemma breathe_sum_1:
  "fadd (0) (3602879701896397 / 72057594037927936) = 3602879701896397 / 72057594037927936"
  unfolding fadd_def fmul_def
  by (rule trans [OF fl_eqI [where e = "- 5" and m = "7205759403792794"]]) simp_all

lemma breathe_sum_2:
  "fadd (3602879701896397 / 72057594037927936) (3602879701896397 / 72057594037927936) = 3602879701896397 / 36028797018963968"
  unfolding fadd_def fmul_def
  by (rule trans [OF fl_eqI [where e = "- 4" and m = "7205759403792794"]]) simp_all

lemma breathe_sum_3:
  "fadd (3602879701896397 / 36028797018963968) (3602879701896397 / 72057594037927936) = 1351079888211149 / 9007199254740992"
  unfolding fadd_def fmul_def
  by (rule trans [OF fl_eqI [where e = "- 3" and m = "5404319552844596"]]) simp_all

lemma breathe_sum_4:
  "fadd (1351079888211149 / 9007199254740992) (3602879701896397 / 72057594037927936) = 3602879701896397 / 18014398509481984"
  unfolding fadd_def fmul_def
  by (rule trans [OF fl_eqI [where e = "- 3" and m = "7205759403792794"]]) simp_all

lemma breathe_sum_5:
  "fadd (3602879701896397 / 18014398509481984) (3602879701896397 / 72057594037927936) = 1 / 4"
  unfolding fadd_def fmul_def
  by (rule trans [OF fl_eqI [where e = "- 2" and m = "4503599627370496"]]) simp_all

lemma breathe_sum_6:
  "fadd (1 / 4) (3602879701896397 / 72057594037927936) = 5404319552844595 / 18014398509481984"
  unfolding fadd_def fmul_def
  by (rule trans [OF fl_eqI [where e = "- 2" and m = "5404319552844595"]]) simp_all

lemma breathe_sum_7:
  "fadd (5404319552844595 / 18014398509481984) (3602879701896397 / 72057594037927936) = 3152519739159347 / 9007199254740992"
  unfolding fadd_def fmul_def
  by (rule trans [OF fl_eqI [where e = "- 2" and m = "6305039478318694"]]) simp_all

lemma breathe_sum_8:
  "fadd (3152519739159347 / 9007199254740992) (3602879701896397 / 72057594037927936) = 7205759403792793 / 18014398509481984"
  unfolding fadd_def fmul_def
  by (rule trans [OF fl_eqI [where e = "- 2" and m = "7205759403792793"]]) simp_all

lemma breathe_sum_9:
  "fadd (7205759403792793 / 18014398509481984) (3602879701896397 / 72057594037927936) = 2026619832316723 / 4503599627370496"
  unfolding fadd_def fmul_def
  by (rule trans [OF fl_eqI [where e = "- 2" and m = "8106479329266892"]]) simp_all

lemma breathe_sum_10:
  "fadd (2026619832316723 / 4503599627370496) (3602879701896397 / 72057594037927936) = 9007199254740991 / 18014398509481984"
  unfolding fadd_def fmul_def
  by (rule trans [OF fl_eqI [where e = "- 2" and m = "9007199254740991"]]) simp_all

lemma breathe_sum_11:
  "fadd (9007199254740991 / 18014398509481984) (3602879701896397 / 72057594037927936) = 4953959590107545 / 9007199254740992"
  unfolding fadd_def fmul_def
  by (rule trans [OF fl_eqI [where e = "- 1" and m = "4953959590107545"]]) simp_all

lemma breathe_sum_12:
  "fadd (4953959590107545 / 9007199254740992) (3602879701896397 / 72057594037927936) = 5404319552844595 / 9007199254740992"
  unfolding fadd_def fmul_def
  by (rule trans [OF fl_eqI [where e = "- 1" and m = "5404319552844595"]]) simp_all

lemma breathe_sum_13:
  "fadd (5404319552844595 / 9007199254740992) (3602879701896397 / 72057594037927936) = 5854679515581645 / 9007199254740992"
  unfolding fadd_def fmul_def
  by (rule trans [OF fl_eqI [where e = "- 1" and m = "5854679515581645"]]) simp_all

lemma breathe_sum_14:
  "fadd (5854679515581645 / 9007199254740992) (3602879701896397 / 72057594037927936) = 6305039478318695 / 9007199254740992"
  unfolding fadd_def fmul_def
  by (rule trans [OF fl_eqI [where e = "- 1" and m = "6305039478318695"]]) simp_all

lemma breathe_sum_15:
  "fadd (6305039478318695 / 9007199254740992) (3602879701896397 / 72057594037927936) = 6755399441055745 / 9007199254740992"
  unfolding fadd_def fmul_def
  by (rule trans [OF fl_eqI [where e = "- 1" and m = "6755399441055745"]]) simp_all

lemma breathe_sum_16:
  "fadd (6755399441055745 / 9007199254740992) (3602879701896397 / 72057594037927936) = 7205759403792795 / 9007199254740992"
  unfolding fadd_def fmul_def
  by (rule trans [OF fl_eqI [where e = "- 1" and m = "7205759403792795"]]) simp_all

lemma breathe_sum_17:
  "fadd (7205759403792795 / 9007199254740992) (3602879701896397 / 72057594037927936) = 7656119366529845 / 9007199254740992"
  unfolding fadd_def fmul_def
  by (rule trans [OF fl_eqI [where e = "- 1" and m = "7656119366529845"]]) simp_all

lemma breathe_sum_18:
  "fadd (7656119366529845 / 9007199254740992) (3602879701896397 / 72057594037927936) = 8106479329266895 / 9007199254740992"
  unfolding fadd_def fmul_def
  by (rule trans [OF fl_eqI [where e = "- 1" and m = "8106479329266895"]]) simp_all

lemma breathe_sum_19:
  "fadd (8106479329266895 / 9007199254740992) (3602879701896397 / 72057594037927936) = 8556839292003945 / 9007199254740992"
  unfolding fadd_def fmul_def
  by (rule trans [OF fl_eqI [where e = "- 1" and m = "8556839292003945"]]) simp_all

lemma breathe_sum_20:
  "fadd (8556839292003945 / 9007199254740992) (3602879701896397 / 72057594037927936) = 4503599627370497 / 4503599627370496"
  unfolding fadd_def fmul_def
  by (rule trans [OF fl_eqI [where e = "0" and m = "4503599627370497"]]) simp_all

lemma breathe_sum_21:
  "fadd (4503599627370497 / 4503599627370496) (- (3602879701896397 / 72057594037927936)) = 1069604911500493 / 1125899906842624"
  unfolding fadd_def fmul_def
  by (rule trans [OF fl_eqI [where e = "- 1" and m = "8556839292003944"]]) simp_all

lemma breathe_sum_22:
  "fadd (1069604911500493 / 1125899906842624) (- (3602879701896397 / 72057594037927936)) = 4053239664633447 / 4503599627370496"
  unfolding fadd_def fmul_def
  by (rule trans [OF fl_eqI [where e = "- 1" and m = "8106479329266894"]]) simp_all

lemma breathe_sum_23:
  "fadd (4053239664633447 / 4503599627370496) (- (3602879701896397 / 72057594037927936)) = 1914029841632461 / 2251799813685248"
  unfolding fadd_def fmul_def
  by (rule trans [OF fl_eqI [where e = "- 1" and m = "7656119366529844"]]) simp_all

lemma breathe_sum_24:
  "fadd (1914029841632461 / 2251799813685248) (- (3602879701896397 / 72057594037927936)) = 3602879701896397 / 4503599627370496"
  unfolding fadd_def fmul_def
  by (rule trans [OF fl_eqI [where e = "- 1" and m = "7205759403792794"]]) simp_all

lemma breathe_sum_25:
  "fadd (3602879701896397 / 4503599627370496) (- (3602879701896397 / 72057594037927936)) = 3 / 4"
  unfolding fadd_def fmul_def
  by (rule trans [OF fl_eqI [where e = "- 1" and m = "6755399441055744"]]) simp_all

lemma breathe_sum_26:
  "fadd (3 / 4) (- (3602879701896397 / 72057594037927936)) = 3152519739159347 / 4503599627370496"
  unfolding fadd_def fmul_def
  by (rule trans [OF fl_eqI [where e = "- 1" and m = "6305039478318694"]]) simp_all

lemma breathe_sum_27:
  "fadd (3152519739159347 / 4503599627370496) (- (3602879701896397 / 72057594037927936)) = 1463669878895411 / 2251799813685248"
  unfolding fadd_def fmul_def
  by (rule trans [OF fl_eqI [where e = "- 1" and m = "5854679515581644"]]) simp_all

lemma breathe_sum_28:
  "fadd (1463669878895411 / 2251799813685248) (- (3602879701896397 / 72057594037927936)) = 2702159776422297 / 4503599627370496"
  unfolding fadd_def fmul_def
  by (rule trans [OF fl_eqI [where e = "- 1" and m = "5404319552844594"]]) simp_all

lemma breathe_sum_29:
  "fadd (2702159776422297 / 4503599627370496) (- (3602879701896397 / 72057594037927936)) = 619244948763443 / 1125899906842624"
  unfolding fadd_def fmul_def
  by (rule trans [OF fl_eqI [where e = "- 1" and m = "4953959590107544"]]) simp_all

lemma breathe_sum_30:
  "fadd (619244948763443 / 1125899906842624) (- (3602879701896397 / 72057594037927936)) = 9007199254740989 / 18014398509481984"
  unfolding fadd_def fmul_def
  by (rule trans [OF fl_eqI [where e = "- 2" and m = "9007199254740989"]]) simp_all

lemma breathe_sum_31:
  "fadd (9007199254740989 / 18014398509481984) (- (3602879701896397 / 72057594037927936)) = 4053239664633445 / 9007199254740992"
  unfolding fadd_def fmul_def
  by (rule trans [OF fl_eqI [where e = "- 2" and m = "8106479329266890"]]) simp_all

lemma breathe_sum_32:
  "fadd (4053239664633445 / 9007199254740992) (- (3602879701896397 / 72057594037927936)) = 7205759403792791 / 18014398509481984"
  unfolding fadd_def fmul_def
  by (rule trans [OF fl_eqI [where e = "- 2" and m = "7205759403792791"]]) simp_all

lemma breathe_sum_33:
  "fadd (7205759403792791 / 18014398509481984) (- (3602879701896397 / 72057594037927936)) = 1576259869579673 / 4503599627370496"
  unfolding fadd_def fmul_def
  by (rule trans [OF fl_eqI [where e = "- 2" and m = "6305039478318692"]]) simp_all

lemma breathe_sum_34:
  "fadd (1576259869579673 / 4503599627370496) (- (3602879701896397 / 72057594037927936)) = 5404319552844593 / 18014398509481984"
  unfolding fadd_def fmul_def
  by (rule trans [OF fl_eqI [where e = "- 2" and m = "5404319552844593"]]) simp_all

lemma breathe_sum_35:
  "fadd (5404319552844593 / 18014398509481984) (- (3602879701896397 / 72057594037927936)) = 2251799813685247 / 9007199254740992"
  unfolding fadd_def fmul_def
  by (rule trans [OF fl_eqI [where e = "- 3" and m = "9007199254740988"]]) simp_all

lemma breathe_sum_36:
  "fadd (2251799813685247 / 9007199254740992) (- (3602879701896397 / 72057594037927936)) = 3602879701896395 / 18014398509481984"
  unfolding fadd_def fmul_def
  by (rule trans [OF fl_eqI [where e = "- 3" and m = "7205759403792790"]]) simp_all

lemma breathe_sum_37:
  "fadd (3602879701896395 / 18014398509481984) (- (3602879701896397 / 72057594037927936)) = 337769972052787 / 2251799813685248"
  unfolding fadd_def fmul_def
  by (rule trans [OF fl_eqI [where e = "- 3" and m = "5404319552844592"]]) simp_all

lemma breathe_sum_38:
  "fadd (337769972052787 / 2251799813685248) (- (3602879701896397 / 72057594037927936)) = 7205759403792787 / 72057594037927936"
  unfolding fadd_def fmul_def
  by (rule trans [OF fl_eqI [where e = "- 4" and m = "7205759403792787"]]) simp_all

lemma breathe_sum_39:
  "fadd (7205759403792787 / 72057594037927936) (- (3602879701896397 / 72057594037927936)) = 1801439850948195 / 36028797018963968"
  unfolding fadd_def fmul_def
  by (rule trans [OF fl_eqI [where e = "- 5" and m = "7205759403792780"]]) simp_all

lemma breathe_sum_40:
  "fadd (1801439850948195 / 36028797018963968) (- (3602879701896397 / 72057594037927936)) = - (7 / 72057594037927936)"
  unfolding fadd_def fmul_def
  by (rule trans [OF fl_eqI [where e = "- 54" and m = "- 7881299347898368"]]) simp_all

lemmas breathe_sums =
  breathe_sum_1 breathe_sum_2 breathe_sum_3 breathe_sum_4 breathe_sum_5 breathe_sum_6
  breathe_sum_7 breathe_sum_8 breathe_sum_9 breathe_sum_10 breathe_sum_11 breathe_sum_12
  breathe_sum_13 breathe_sum_14 breathe_sum_15 breathe_sum_16 breathe_sum_17
  breathe_sum_18 breathe_sum_19 breathe_sum_20 breathe_sum_21 breathe_sum_22
  breathe_sum_23 breathe_sum_24 breathe_sum_25 breathe_sum_26 breathe_sum_27
  breathe_sum_28 breathe_sum_29 breathe_sum_30 breathe_sum_31 breathe_sum_32
  breathe_sum_33 breathe_sum_34 breathe_sum_35 breathe_sum_36 breathe_sum_37
  breathe_sum_38 breathe_sum_39 breathe_sum_40

lemma breathe_loop_numeral:
  "breathe_loop (numeral n + k) env end_time one_shot a brightness step ending tr =
   breathe_loop (Suc (pred_numeral n + k)) env end_time one_shot a brightness step ending tr"
  by (simp only: numeral_eq_Suc add_Suc)

lemmas breathe_loop_unroll = breathe_loop.simps(2) [unfolded Let_def]

lemmas breathe_loop_unroll_numeral =
  breathe_loop_numeral [unfolded breathe_loop.simps(2) Let_def]

text \<open>
  Claim C7. \<^verbatim>\<open>BreatheLedAnimation.start(one_shot=True)\<close> with no timeout and no call of
  \<^verbatim>\<open>stop()\<close> returns. It renders forty frames and then the off fill. A frame is a fill
  of all LEDs with the base color \<open>(r, g, bl)\<close> scaled by the current brightness \<open>b\<close>, that
  is with the three float products \<open>b * r\<close>, \<open>b * g\<close>, \<open>b * bl\<close>, followed by the step delay. The brightness
  values, given here as multiples of \<open>2 ^ -57\<close>, rise strictly for twenty frames, the
  twentieth being the only one that is at least 1; from there they fall strictly, and the
  last one is the only one that is at most 0: the loop stops the first time the brightness
  is back at or below 0 after having reached 1.
\<close>

theorem breathe_one_shot_rises_then_falls:
  "let levels = map (\<lambda>m. of_int m / 2 ^ 57)
        [7205759403792794, 14411518807585588, 21617278211378384, 28823037615171176,
        36028797018963968, 43234556422756760, 50440315826549552, 57646075230342344,
        64851834634135136, 72057594037927928, 79263353441720720, 86469112845513520,
        93674872249306320, 100880631653099120, 108086391056891920,
        115292150460684720, 122497909864477520, 129703669268270320,
        136909428672063120, 144115188075855904, 136909428672063104,
        129703669268270304, 122497909864477504, 115292150460684704,
        108086391056891904, 100880631653099104, 93674872249306304,
        86469112845513504, 79263353441720704, 72057594037927912, 64851834634135120,
        57646075230342328, 50440315826549536, 43234556422756744, 36028797018963952,
        28823037615171160, 21617278211378368, 14411518807585574, 7205759403792780,
        -14] :: rat list
   in breathe_start (41 + k) \<lparr>stop_called = (\<lambda>n. False), deadline_passed = dp\<rparr> None True
        (BreatheLedAnimation (r, g, bl)) =
        Some (concat (map (\<lambda>b. [Fill (fl (b * r), fl (b * g), fl (b * bl)), Wait (fl (1 / 20))])
                levels) @ [Fill BLACK])
      \<and> length levels = 40
      \<and> sorted_wrt (<) (take 20 levels)
      \<and> 1 \<le> levels ! 19
      \<and> filter (\<lambda>b. 1 \<le> b) levels = [levels ! 19]
      \<and> sorted_wrt (>) (drop 19 levels)
      \<and> filter (\<lambda>b. b \<le> 0) levels = [last levels]"
proof -
  have run: "breathe_start (41 + k) \<lparr>stop_called = (\<lambda>n. False), deadline_passed = dp\<rparr> None True
        (BreatheLedAnimation (r, g, bl)) =
      Some (concat (map (\<lambda>b. [Fill (scale b (r, g, bl)), Wait (fl (1 / 20))])
         (map (\<lambda>m. of_int m / 2 ^ 57)
        [7205759403792794, 14411518807585588, 21617278211378384, 28823037615171176,
        36028797018963968, 43234556422756760, 50440315826549552, 57646075230342344,
        64851834634135136, 72057594037927928, 79263353441720720, 86469112845513520,
        93674872249306320, 100880631653099120, 108086391056891920,
        115292150460684720, 122497909864477520, 129703669268270320,
        136909428672063120, 144115188075855904, 136909428672063104,
        129703669268270304, 122497909864477504, 115292150460684704,
        108086391056891904, 100880631653099104, 93674872249306304,
        86469112845513504, 79263353441720704, 72057594037927912, 64851834634135120,
        57646075230342328, 50440315826549536, 43234556422756744, 36028797018963952,
        28823037615171160, 21617278211378368, 14411518807585574, 7205759403792780,
        -14])) @ [Fill BLACK])"
    by (simp add: breathe_start_def BreatheLedAnimation_def breathe_observe_def
        has_end_time_def delay_wait_def float_step float_neg_step breathe_sums
        breathe_loop_unroll_numeral breathe_loop_unroll del: breathe_loop.simps)
  show ?thesis
    unfolding Let_def
    apply (intro conjI)
    subgoal using run by (simp add: scale_def fmul_def)
    subgoal by simp
    subgoal by simp
    subgoal by simp
    subgoal by simp
    subgoal by simp
    subgoal by simp
    done
qed

theorem breathe_one_shot_rises_then_falls_witness:
  "breathe_start 41 \<lparr>stop_called = (\<lambda>n. False), deadline_passed = (\<lambda>n. False)\<rparr> None True
     (BreatheLedAnimation (255, 0, 0)) \<noteq> None"
  using breathe_one_shot_rises_then_falls
    [where k = 0 and dp = "\<lambda>n. False" and r = 255 and g = 0 and bl = 0]
  by (simp add: Let_def)

subsection \<open>The device\<close>

lemma exec_trace_append: "exec_trace (xs @ ys) d = exec_trace ys (exec_trace xs d)"
  by (simp add: exec_trace_def)

lemma exec_trace_Cons: "exec_trace (e # tr) d = exec_trace tr (exec_event e d)"
  by (simp add: exec_trace_def)

lemma exec_trace_Nil: "exec_trace [] d = d"
  by (simp add: exec_trace_def)

lemma length_fold_writes:
  "length (fold (\<lambda>w xs. xs[fst w := snd w]) ps xs) = length xs"
  by (induction ps arbitrary: xs) simp_all

lemma shown_set_led_now:
  "shown (dev_set_led i c True d) = (fold (\<lambda>w xs. xs[fst w := snd w]) (pending d) (shown d))[i := c]"
  by (simp add: dev_set_led_def dev_show_def)

lemma pending_set_led_now: "pending (dev_set_led i c True d) = []"
  by (simp add: dev_set_led_def dev_show_def)

lemma fold_set_nth:
  "i < length xs \<Longrightarrow>
   fold (\<lambda>led ys. ys[led := c]) leds xs ! i = (if i \<in> set leds then c else xs ! i)"
proof (induction leds arbitrary: xs)
  case Nil
  show ?case by simp
next
  case (Cons led leds)
  from Cons.prems have "i < length (xs[led := c])" by simp
  from Cons.IH [OF this] Cons.prems show ?case
    by (auto simp: nth_list_update)
qed

lemma length_fold_set: "length (fold (\<lambda>led ys. ys[led := c]) leds xs) = length xs"
  by (induction leds arbitrary: xs) simp_all

lemma fold_set_all:
  assumes "{0..<length xs} \<subseteq> set leds"
  shows "fold (\<lambda>led ys. ys[led := c]) leds xs = replicate (length xs) c"
proof (rule nth_equalityI)
  show "length (fold (\<lambda>led ys. ys[led := c]) leds xs) = length (replicate (length xs) c)"
    by (simp add: length_fold_set)
next
  fix i
  assume "i < length (fold (\<lambda>led ys. ys[led := c]) leds xs)"
  then have i: "i < length xs" by (simp add: length_fold_set)
  with assms have "i \<in> set leds" by auto
  with i show "fold (\<lambda>led ys. ys[led := c]) leds xs ! i = replicate (length xs) c ! i"
    by (simp add: fold_set_nth)
qed

lemma exec_set_each:
  "leds \<noteq> [] \<Longrightarrow>
   shown (exec_trace (concat (map (\<lambda>led. [Set_led led c True, Wait w]) leds)) d) =
     fold (\<lambda>led ys. ys[led := c]) leds
       (fold (\<lambda>w xs. xs[fst w := snd w]) (pending d) (shown d))
   \<and> pending (exec_trace (concat (map (\<lambda>led. [Set_led led c True, Wait w]) leds)) d) = []"
proof (induction leds arbitrary: d)
  case Nil
  then show ?case by simp
next
  case (Cons led leds)
  define d1 where "d1 = dev_set_led led c True d"
  have step: "exec_trace (concat (map (\<lambda>led. [Set_led led c True, Wait w]) (led # leds))) d =
      exec_trace (concat (map (\<lambda>led. [Set_led led c True, Wait w]) leds)) d1"
    by (simp add: exec_trace_Cons d1_def)
  show ?case
  proof (cases "leds = []")
    case True
    then show ?thesis
      by (simp add: exec_trace_Cons exec_trace_Nil shown_set_led_now pending_set_led_now)
  next
    case False
    from Cons.IH [OF False, of d1] show ?thesis
      unfolding step by (simp add: d1_def shown_set_led_now pending_set_led_now)
  qed
qed

subsection \<open>Fill\<close>

lemma fill_start_trace:
  "fill_start n timeout one_shot (FillLedAnimation c reverse) tr =
     tr @ (if one_shot \<and> timeout = None then []
           else [Log_warning ''Fill animation does not support persistent animation''])
     @ concat (map (\<lambda>led. [Set_led led c True, Wait (fl (1 / 20))])
         (if reverse then rev [0..<n] else [0..<n]))"
  by (simp add: fill_start_def FillLedAnimation_def fill_pass_eq delay_wait_def)

text \<open>
  Claim C5. \<^verbatim>\<open>FillLedAnimation.start\<close> makes exactly one pass over the LEDs, whatever
  \<^verbatim>\<open>one_shot\<close> and \<^verbatim>\<open>timeout\<close> are: it sets each index from 0 to \<^verbatim>\<open>num_leds - 1\<close> (in
  reversed order when \<^verbatim>\<open>reverse\<close> is true) to the fill color, with a wait after each. When
  \<^verbatim>\<open>one_shot\<close> is false or a timeout is given it first logs a warning and then makes the
  same pass. It restores nothing afterwards: on the device, every LED shows the fill color
  when it returns. The model of \<^verbatim>\<open>start\<close> takes no environment because the source reads
  neither a stop flag nor the clock.
\<close>

theorem fill_runs_one_pass:
  "fill_start n timeout one_shot (FillLedAnimation c reverse) [] =
     (if one_shot \<and> timeout = None then []
      else [Log_warning ''Fill animation does not support persistent animation''])
     @ concat (map (\<lambda>led. [Set_led led c True, Wait (fl (1 / 20))])
         (if reverse then rev [0..<n] else [0..<n]))
   \<and> shown (exec_trace (fill_start (num_leds d) timeout one_shot (FillLedAnimation c reverse) []) d)
       = replicate (num_leds d) c"
proof
  show "fill_start n timeout one_shot (FillLedAnimation c reverse) [] =
     (if one_shot \<and> timeout = None then []
      else [Log_warning ''Fill animation does not support persistent animation''])
     @ concat (map (\<lambda>led. [Set_led led c True, Wait (fl (1 / 20))])
         (if reverse then rev [0..<n] else [0..<n]))"
    by (simp add: fill_start_trace)
next
  define leds where "leds = (if reverse then rev [0..<num_leds d] else [0..<num_leds d])"
  define pre where "pre = (if one_shot \<and> timeout = None then []
      else [Log_warning ''Fill animation does not support persistent animation''])"
  have tr: "fill_start (num_leds d) timeout one_shot (FillLedAnimation c reverse) [] =
      pre @ concat (map (\<lambda>led. [Set_led led c True, Wait (fl (1 / 20))]) leds)"
    by (simp add: fill_start_trace leds_def pre_def)
  have pre: "exec_trace pre d = d"
    by (simp add: pre_def exec_trace_Cons exec_trace_Nil)
  have set_leds: "set leds = {0..<num_leds d}"
    by (simp add: leds_def)
  show "shown (exec_trace (fill_start (num_leds d) timeout one_shot (FillLedAnimation c reverse) []) d)
       = replicate (num_leds d) c"
  proof (cases "leds = []")
    case True
    with set_leds have "num_leds d = 0" by simp
    then have off: "shown d = replicate (num_leds d) c"
      by (simp add: num_leds_def)
    have e: "fill_start (num_leds d) timeout one_shot (FillLedAnimation c reverse) [] = pre"
      using True by (simp add: tr)
    show ?thesis
      unfolding e pre by (rule off)
  next
    case False
    let ?xs = "fold (\<lambda>w xs. xs[fst w := snd w]) (pending d) (shown d)"
    have len: "length ?xs = num_leds d"
      by (simp add: length_fold_writes num_leds_def)
    have "shown (exec_trace (concat (map (\<lambda>led. [Set_led led c True, Wait (fl (1 / 20))]) leds)) d)
        = fold (\<lambda>led ys. ys[led := c]) leds ?xs"
      using exec_set_each [OF False] by simp
    also have "\<dots> = replicate (length ?xs) c"
      by (rule fold_set_all) (simp add: set_leds len)
    finally show ?thesis
      by (simp add: tr exec_trace_append pre len)
  qed
qed

theorem fill_runs_one_pass_witness:
  "fill_start 3 (Some 5) False (FillLedAnimation (0, 0, 255) True) [] =
     [Log_warning ''Fill animation does not support persistent animation'',
      Set_led 2 (0, 0, 255) True, Wait (fl (1 / 20)),
      Set_led 1 (0, 0, 255) True, Wait (fl (1 / 20)),
      Set_led 0 (0, 0, 255) True, Wait (fl (1 / 20))]
   \<and> shown (exec_trace (fill_start 3 (Some 5) False (FillLedAnimation (0, 0, 255) True) [])
        \<lparr>shown = [(255, 0, 0), BLACK, BLACK], pending = []\<rparr>)
       = [(0, 0, 255), (0, 0, 255), (0, 0, 255)]"
proof -
  have leds: "[0..<(3::nat)] = [0, 1, 2]"
    by code_simp
  have three: "replicate 3 c = [c, c, c]" for c :: rgb
    by (simp add: numeral_3_eq_3)
  have n: "num_leds \<lparr>shown = [(255, 0, 0), BLACK, BLACK], pending = []\<rparr> = 3"
    by (simp add: num_leds_def)
  note w = fill_runs_one_pass [of 3 "Some 5" False "(0, 0, 255)" True
        "\<lparr>shown = [(255, 0, 0), BLACK, BLACK], pending = []\<rparr>", unfolded n]
  from w have tr: "fill_start 3 (Some 5) False (FillLedAnimation (0, 0, 255) True) [] =
     [Log_warning ''Fill animation does not support persistent animation'',
      Set_led 2 (0, 0, 255) True, Wait (fl (1 / 20)),
      Set_led 1 (0, 0, 255) True, Wait (fl (1 / 20)),
      Set_led 0 (0, 0, 255) True, Wait (fl (1 / 20))]"
    by (simp add: leds)
  from w [unfolded three] have sh: "shown (exec_trace (fill_start 3 (Some 5) False (FillLedAnimation (0, 0, 255) True) [])
        \<lparr>shown = [(255, 0, 0), BLACK, BLACK], pending = []\<rparr>)
       = [(0, 0, 255), (0, 0, 255), (0, 0, 255)]"
    by (rule conjunct2)
  show ?thesis
    by (intro conjI tr sh)
qed

subsection \<open>Alternating\<close>

lemma alternating_loop_shape:
  "alternating_loop fuel env n end_time one_shot a evens tr = Some tr' \<Longrightarrow>
   al_color a = c \<Longrightarrow> al_delay_event a = flag \<Longrightarrow> al_delay a = w \<Longrightarrow>
   \<exists>m. tr' = tr @ concat (map (\<lambda>j.
       map (\<lambda>led. Set_led led (if even led = (even j = evens) then c else BLACK) False) [0..<n]
       @ [Show, delay_wait flag w]) [0..<m])"
proof (induction fuel arbitrary: a evens tr)
  case 0
  then show ?case by simp
next
  case (Suc fuel)
  let ?frame = "\<lambda>e. map (\<lambda>led. Set_led led (if even led = e then c else BLACK) False) [0..<n]
         @ [Show, delay_wait flag w]"
  show ?case
  proof (cases "al_stopping (alternating_observe env (length tr) a)")
    case True
    with Suc.prems have "tr' = tr" by simp
    then have "tr' = tr @ concat (map (\<lambda>j. ?frame (even j = evens)) [0..<0])" by simp
    then show ?thesis by blast
  next
    case False
    with Suc.prems obtain a2 where
      rec: "alternating_loop fuel env n end_time one_shot a2 (\<not> evens) (tr @ ?frame evens)
            = Some tr'"
      and same: "al_color a2 = c" "al_delay_event a2 = flag" "al_delay a2 = w"
      by (auto simp: Let_def alternating_frame_eq alternating_observe_def alternating_stop_def
          split: if_splits)
    from Suc.IH [OF rec same] obtain m where
      m: "tr' = (tr @ ?frame evens) @ concat (map (\<lambda>j. ?frame (even j = (\<not> evens))) [0..<m])"
      by blast
    have shift: "map (\<lambda>j. ?frame (even j = evens)) [0..<Suc m] =
        ?frame evens # map (\<lambda>j. ?frame (even j = (\<not> evens))) [0..<m]"
      by (cases evens) (simp_all add: map_upt_Suc del: upt_Suc)
    have "tr' = tr @ concat (map (\<lambda>j. ?frame (even j = evens)) [0..<Suc m])"
      unfolding shift using m by simp
    then show ?thesis by blast
  qed
qed

lemma exec_buffered_writes:
  "exec_trace (map (\<lambda>led. Set_led led (g led) False) leds) d =
     d\<lparr>pending := pending d @ map (\<lambda>led. (led, g led)) leds\<rparr>"
proof (induction leds arbitrary: d)
  case Nil
  show ?case by (simp add: exec_trace_Nil)
next
  case (Cons led leds)
  show ?case
    by (simp add: exec_trace_Cons Cons.IH dev_set_led_def)
qed

lemma fold_writes_upto:
  "k \<le> length xs \<Longrightarrow>
   fold (\<lambda>w ys. ys[fst w := snd w]) (map (\<lambda>i. (i, f i)) [0..<k]) xs = map f [0..<k] @ drop k xs"
proof (induction k)
  case 0
  show ?case by simp
next
  case (Suc k)
  then have k: "k < length xs" by simp
  have "fold (\<lambda>w ys. ys[fst w := snd w]) (map (\<lambda>i. (i, f i)) [0..<Suc k]) xs
        = (map f [0..<k] @ drop k xs)[k := f k]"
    using Suc by simp
  also have "\<dots> = map f [0..<k] @ (drop k xs)[0 := f k]"
    by (simp add: list_update_append)
  also have "drop k xs = xs ! k # drop (Suc k) xs"
    using k by (simp add: Cons_nth_drop_Suc)
  finally show ?case by simp
qed

lemma fold_writes_all:
  "fold (\<lambda>w ys. ys[fst w := snd w]) (map (\<lambda>i. (i, f i)) [0..<length xs]) xs = map f [0..<length xs]"
  using fold_writes_upto [of "length xs" xs f] by simp

lemma alternating_issued_shape:
  "al_color a = c \<Longrightarrow> al_delay_event a = flag \<Longrightarrow> al_delay a = w \<Longrightarrow>
   \<exists>m. alternating_issued fuel env n end_time one_shot a evens tr =
     tr @ concat (map (\<lambda>j.
       map (\<lambda>led. Set_led led (if even led = (even j = evens) then c else BLACK) False) [0..<n]
       @ [Show, delay_wait flag w]) [0..<m])"
proof (induction fuel arbitrary: a evens tr)
  case 0
  have "alternating_issued 0 env n end_time one_shot a evens tr =
     tr @ concat (map (\<lambda>j.
       map (\<lambda>led. Set_led led (if even led = (even j = evens) then c else BLACK) False) [0..<n]
       @ [Show, delay_wait flag w]) [0..<0])"
    by simp
  then show ?case by blast
next
  case (Suc fuel)
  let ?frame = "\<lambda>e. map (\<lambda>led. Set_led led (if even led = e then c else BLACK) False) [0..<n]
         @ [Show, delay_wait flag w]"
  show ?case
  proof (cases "al_stopping (alternating_observe env (length tr) a)")
    case True
    then have "alternating_issued (Suc fuel) env n end_time one_shot a evens tr =
        tr @ concat (map (\<lambda>j. ?frame (even j = evens)) [0..<0])"
      by simp
    then show ?thesis by blast
  next
    case False
    define a1 where "a1 = alternating_observe env (length tr) a"
    define a2 where "a2 = (if one_shot \<and> \<not> evens then a1\<lparr>al_stopping := True\<rparr>
                     else if end_time \<and> deadline_passed env (length (tr @ ?frame evens))
                          then a1\<lparr>al_stopping := True\<rparr>
                     else a1)"
    have a1: "al_color a1 = c" "al_delay_event a1 = flag" "al_delay a1 = w"
      using Suc.prems by (simp_all add: a1_def alternating_observe_def alternating_stop_def)
    then have same: "al_color a2 = c" "al_delay_event a2 = flag" "al_delay a2 = w"
      by (simp_all add: a2_def)
    have step: "alternating_issued (Suc fuel) env n end_time one_shot a evens tr =
        alternating_issued fuel env n end_time one_shot a2 (\<not> evens) (tr @ ?frame evens)"
      using False a1
      by (simp add: Let_def alternating_frame_eq a1_def [symmetric] a2_def cong: if_cong)
    from Suc.IH [OF same] obtain m where
      m: "alternating_issued fuel env n end_time one_shot a2 (\<not> evens) (tr @ ?frame evens) =
          (tr @ ?frame evens) @ concat (map (\<lambda>j. ?frame (even j = (\<not> evens))) [0..<m])"
      by blast
    have shift: "map (\<lambda>j. ?frame (even j = evens)) [0..<Suc m] =
        ?frame evens # map (\<lambda>j. ?frame (even j = (\<not> evens))) [0..<m]"
      by (cases evens) (simp_all add: map_upt_Suc del: upt_Suc)
    have "alternating_issued (Suc fuel) env n end_time one_shot a evens tr =
        tr @ concat (map (\<lambda>j. ?frame (even j = evens)) [0..<Suc m])"
      unfolding shift step m by simp
    then show ?thesis by blast
  qed
qed

lemma alternating_loop_issued:
  "alternating_loop fuel env n end_time one_shot a evens tr = Some tr' \<Longrightarrow>
   alternating_issued fuel env n end_time one_shot a evens tr = tr'"
proof (induction fuel arbitrary: a evens tr)
  case 0
  then show ?case by simp
next
  case (Suc fuel)
  show ?case
  proof (cases "al_stopping (alternating_observe env (length tr) a)")
    case True
    with Suc.prems show ?thesis by simp
  next
    case False
    with Suc.prems Suc.IH show ?thesis
      by (simp add: Let_def)
  qed
qed

text \<open>
  Claim C9 as stated gives the one-shot run both frames whatever the timeout. With a
  timeout that has run out when the even frame is done, the \<^verbatim>\<open>elif\<close> branch of the loop
  stops the run there: the odd frame is never rendered.
\<close>

theorem alternating_one_shot_counterexample:
  "alternating_start 2 \<lparr>stop_called = (\<lambda>i. False), deadline_passed = (\<lambda>i. True)\<rparr> 3 (Some 1) True
     (AlternatingLedAnimation (0, 255, 0)) =
   Some [Fill BLACK,
         Set_led 0 (0, 255, 0) False, Set_led 1 BLACK False, Set_led 2 (0, 255, 0) False,
         Show, Wait (1 / 2),
         Fill BLACK]"
proof -
  have leds: "[0..<(3::nat)] = [0, 1, 2]"
    by code_simp
  show ?thesis
    by (simp add: alternating_start_def AlternatingLedAnimation_def alternating_observe_def
        alternating_stop_def has_end_time_def delay_wait_def leds numeral_2_eq_2)
qed

text \<open>
  Claim C9, as amended. For every number of LEDs, a frame of
  \<^verbatim>\<open>AlternatingLedAnimation.start\<close> writes every index from 0 to \<^verbatim>\<open>num_leds - 1\<close> exactly
  once, without showing it, the color to the indices of the current parity and the off
  color to the others; the device shows nothing new until the single \<^verbatim>\<open>show()\<close> that
  follows, and then exactly the even (or exactly the odd) LEDs show the color. The events
  issued by every run, returning or not, are the opening off fill and such frames with
  alternating parity, starting with the even one, each followed by \<^verbatim>\<open>show()\<close> and the
  wait; a run that returns adds the final off fill. With \<^verbatim>\<open>one_shot=True\<close> and no call of
  \<^verbatim>\<open>stop()\<close>, the loop runs the even frame and then the odd frame and stops, provided no
  timeout has run out when the even frame is done; when one has, the run ends after the
  even frame alone.
\<close>

theorem alternating_frames:
  "alternating_frame (AlternatingLedAnimation c) evens [0..<n] [] =
     map (\<lambda>led. Set_led led (if even led = evens then c else BLACK) False) [0..<n]
   \<and> shown (exec_trace (alternating_frame (AlternatingLedAnimation c) evens [0..<num_leds d] []) d)
       = shown d
   \<and> shown (exec_trace (alternating_frame (AlternatingLedAnimation c) evens [0..<num_leds d] []
                          @ [Show]) d)
       = map (\<lambda>led. if even led = evens then c else BLACK) [0..<num_leds d]
   \<and> (\<exists>m. alternating_start_issued fuel env n timeout one_shot (AlternatingLedAnimation c) =
          [Fill BLACK]
          @ concat (map (\<lambda>j.
              map (\<lambda>led. Set_led led (if even led = even j then c else BLACK) False) [0..<n]
              @ [Show, Wait (1 / 2)]) [0..<m]))
   \<and> (alternating_start fuel env n timeout one_shot (AlternatingLedAnimation c) = Some tr \<longrightarrow>
        tr = alternating_start_issued fuel env n timeout one_shot (AlternatingLedAnimation c)
             @ [Fill BLACK])
   \<and> (\<not> (has_end_time timeout \<and> dp (n + 3)) \<longrightarrow>
        alternating_start (Suc (Suc (Suc k))) \<lparr>stop_called = (\<lambda>i. False), deadline_passed = dp\<rparr>
            n timeout True (AlternatingLedAnimation c) =
          Some ([Fill BLACK]
                @ map (\<lambda>led. Set_led led (if even led then c else BLACK) False) [0..<n]
                @ [Show, Wait (1 / 2)]
                @ map (\<lambda>led. Set_led led (if odd led then c else BLACK) False) [0..<n]
                @ [Show, Wait (1 / 2)]
                @ [Fill BLACK]))
   \<and> (has_end_time timeout \<and> dp (n + 3) \<longrightarrow>
        alternating_start (Suc (Suc k)) \<lparr>stop_called = (\<lambda>i. False), deadline_passed = dp\<rparr>
            n timeout True (AlternatingLedAnimation c) =
          Some ([Fill BLACK]
                @ map (\<lambda>led. Set_led led (if even led then c else BLACK) False) [0..<n]
                @ [Show, Wait (1 / 2)]
                @ [Fill BLACK]))"
proof (intro conjI impI)
  let ?a = "AlternatingLedAnimation c"
  have col: "al_color ?a = c" "al_delay_event ?a = False" "al_delay ?a = 1 / 2"
    by (simp_all add: AlternatingLedAnimation_def)
  show frame: "alternating_frame ?a evens [0..<n] [] =
     map (\<lambda>led. Set_led led (if even led = evens then c else BLACK) False) [0..<n]" for evens n
    by (simp add: alternating_frame_eq col)
  show "shown (exec_trace (alternating_frame ?a evens [0..<num_leds d] []) d) = shown d"
    by (simp add: frame exec_buffered_writes)
  have "shown (exec_trace (alternating_frame ?a evens [0..<num_leds d] [] @ [Show]) d)
      = fold (\<lambda>w ys. ys[fst w := snd w])
          (map (\<lambda>led. (led, if even led = evens then c else BLACK)) [0..<num_leds d])
          (fold (\<lambda>w ys. ys[fst w := snd w]) (pending d) (shown d))"
    by (simp add: frame exec_trace_append exec_buffered_writes exec_trace_Cons exec_trace_Nil
        dev_show_def)
  also have "\<dots> = map (\<lambda>led. if even led = evens then c else BLACK) [0..<num_leds d]"
    using fold_writes_all [of "\<lambda>led. if even led = evens then c else BLACK"
        "fold (\<lambda>w ys. ys[fst w := snd w]) (pending d) (shown d)"]
    by (simp add: length_fold_writes num_leds_def)
  finally show "shown (exec_trace (alternating_frame ?a evens [0..<num_leds d] [] @ [Show]) d)
       = map (\<lambda>led. if even led = evens then c else BLACK) [0..<num_leds d]" .
  have "\<exists>m. alternating_issued fuel env n (has_end_time timeout) one_shot
          (?a\<lparr>al_stopping := False\<rparr>) True [Fill BLACK] =
        [Fill BLACK] @ concat (map (\<lambda>j.
           map (\<lambda>led. Set_led led (if even led = (even j = True) then c else BLACK) False) [0..<n]
           @ [Show, delay_wait False (1 / 2)]) [0..<m])"
    by (rule alternating_issued_shape) (simp_all add: AlternatingLedAnimation_def)
  then show "\<exists>m. alternating_start_issued fuel env n timeout one_shot ?a =
          [Fill BLACK]
          @ concat (map (\<lambda>j.
              map (\<lambda>led. Set_led led (if even led = even j then c else BLACK) False) [0..<n]
              @ [Show, Wait (1 / 2)]) [0..<m])"
    by (simp add: alternating_start_issued_def delay_wait_def)
next
  let ?a = "AlternatingLedAnimation c"
  assume "alternating_start fuel env n timeout one_shot ?a = Some tr"
  then obtain tr1 where
    loop: "alternating_loop fuel env n (has_end_time timeout) one_shot (?a\<lparr>al_stopping := False\<rparr>)
             True [Fill BLACK] = Some tr1"
    and tr: "tr = tr1 @ [Fill BLACK]"
    by (auto simp: alternating_start_def split: option.splits)
  from alternating_loop_issued [OF loop]
  show "tr = alternating_start_issued fuel env n timeout one_shot ?a @ [Fill BLACK]"
    by (simp add: alternating_start_issued_def tr)
next
  assume "\<not> (has_end_time timeout \<and> dp (n + 3))"
  then show "alternating_start (Suc (Suc (Suc k))) \<lparr>stop_called = (\<lambda>i. False), deadline_passed = dp\<rparr>
            n timeout True (AlternatingLedAnimation c) =
          Some ([Fill BLACK]
                @ map (\<lambda>led. Set_led led (if even led then c else BLACK) False) [0..<n]
                @ [Show, Wait (1 / 2)]
                @ map (\<lambda>led. Set_led led (if odd led then c else BLACK) False) [0..<n]
                @ [Show, Wait (1 / 2)]
                @ [Fill BLACK])"
    by (simp add: alternating_start_def AlternatingLedAnimation_def alternating_observe_def
        alternating_frame_eq delay_wait_def Let_def numeral_3_eq_3 cong: if_cong)
next
  assume "has_end_time timeout \<and> dp (n + 3)"
  then show "alternating_start (Suc (Suc k)) \<lparr>stop_called = (\<lambda>i. False), deadline_passed = dp\<rparr>
            n timeout True (AlternatingLedAnimation c) =
          Some ([Fill BLACK]
                @ map (\<lambda>led. Set_led led (if even led then c else BLACK) False) [0..<n]
                @ [Show, Wait (1 / 2)]
                @ [Fill BLACK])"
    by (simp add: alternating_start_def AlternatingLedAnimation_def alternating_observe_def
        alternating_frame_eq delay_wait_def Let_def numeral_3_eq_3 cong: if_cong)
qed

theorem alternating_frames_witness:
  "alternating_start 3 \<lparr>stop_called = (\<lambda>i. False), deadline_passed = (\<lambda>i. False)\<rparr> 3 None True
     (AlternatingLedAnimation (0, 255, 0)) =
   Some [Fill BLACK,
         Set_led 0 (0, 255, 0) False, Set_led 1 BLACK False, Set_led 2 (0, 255, 0) False,
         Show, Wait (1 / 2),
         Set_led 0 BLACK False, Set_led 1 (0, 255, 0) False, Set_led 2 BLACK False,
         Show, Wait (1 / 2),
         Fill BLACK]
   \<and> alternating_start_issued 3 \<lparr>stop_called = (\<lambda>i. False), deadline_passed = (\<lambda>i. False)\<rparr>
       3 None True (AlternatingLedAnimation (0, 255, 0)) @ [Fill BLACK] =
     [Fill BLACK,
         Set_led 0 (0, 255, 0) False, Set_led 1 BLACK False, Set_led 2 (0, 255, 0) False,
         Show, Wait (1 / 2),
         Set_led 0 BLACK False, Set_led 1 (0, 255, 0) False, Set_led 2 BLACK False,
         Show, Wait (1 / 2),
         Fill BLACK]"
proof -
  let ?env = "\<lparr>stop_called = (\<lambda>i. False), deadline_passed = (\<lambda>i. False)\<rparr>"
  let ?tr = "[Fill BLACK,
         Set_led 0 (0, 255, 0) False, Set_led 1 BLACK False, Set_led 2 (0, 255, 0) False,
         Show, Wait (1 / 2),
         Set_led 0 BLACK False, Set_led 1 (0, 255, 0) False, Set_led 2 BLACK False,
         Show, Wait (1 / 2),
         Fill BLACK]"
  note w = alternating_frames [of "(0, 255, 0)" True 3 "\<lparr>shown = [], pending = []\<rparr>" 3
      ?env None True ?tr "\<lambda>i. False" 0]
  have leds: "[0..<(3::nat)] = [0, 1, 2]"
    by code_simp
  from w have "alternating_start (Suc (Suc (Suc 0))) ?env 3 None True
      (AlternatingLedAnimation (0, 255, 0)) =
          Some ([Fill BLACK]
                @ map (\<lambda>led. Set_led led (if even led then (0, 255, 0) else BLACK) False) [0..<3]
                @ [Show, Wait (1 / 2)]
                @ map (\<lambda>led. Set_led led (if odd led then (0, 255, 0) else BLACK) False) [0..<3]
                @ [Show, Wait (1 / 2)]
                @ [Fill BLACK])"
    by (simp add: has_end_time_def)
  then have run: "alternating_start 3 ?env 3 None True (AlternatingLedAnimation (0, 255, 0))
      = Some ?tr"
    by (simp add: leds numeral_3_eq_3)
  with w have "?tr = alternating_start_issued 3 ?env 3 None True
      (AlternatingLedAnimation (0, 255, 0)) @ [Fill BLACK]"
    by blast
  with run show ?thesis by simp
qed

subsection \<open>Wait-steps of a stretch of a trace\<close>











subsection \<open>One pass of each loop\<close>











subsection \<open>Runs in which stop() is called\<close>





















subsection \<open>stop() during a run\<close>




subsection \<open>stop() and the wait\<close>




subsection \<open>Refill and Bounce\<close>




subsection \<open>The LEDs when start() returns\<close>

text \<open>
  Claim C4.  Refill and Bounce have no closing off fill.  When stop() is called between the
  \<open>clear()\<close> of start() and the first test of the flag, start() returns without a
  single call to the device, and LEDs that were lit stay lit.  At the same input Breathe, Chase,
  Blink and Alternating issue their off fill and leave every LED off.
\<close>

theorem refill_leaves_leds_lit:
  "refill_start 1 \<lparr>stop_called = (\<lambda>i. True), deadline_passed = (\<lambda>i. False)\<rparr> 3 None False
      (RefillLedAnimation (255, 0, 0) False) = Some []
   \<and> bounce_start 1 \<lparr>stop_called = (\<lambda>i. True), deadline_passed = (\<lambda>i. False)\<rparr> 3 None False
      (BounceLedAnimation (255, 0, 0) False) = Some []
   \<and> shown (exec_trace [] \<lparr>shown = [(0, 0, 255), (0, 0, 255), (0, 0, 255)], pending = []\<rparr>)
       = [(0, 0, 255), (0, 0, 255), (0, 0, 255)]
   \<and> [(0, 0, 255), (0, 0, 255), (0, 0, 255)] \<noteq> replicate 3 BLACK
   \<and> chase_start 1 \<lparr>stop_called = (\<lambda>i. True), deadline_passed = (\<lambda>i. False)\<rparr> 3 None False
      (ChaseLedAnimation (255, 0, 0) (0, 255, 0)) = Some [Fill (0, 255, 0), Fill BLACK]
   \<and> shown (exec_trace [Fill (0, 255, 0), Fill BLACK]
        \<lparr>shown = [(0, 0, 255), (0, 0, 255), (0, 0, 255)], pending = []\<rparr>) = replicate 3 BLACK
   \<and> breathe_start 1 \<lparr>stop_called = (\<lambda>i. True), deadline_passed = (\<lambda>i. False)\<rparr> None False
      (BreatheLedAnimation (255, 0, 0)) = Some [Fill BLACK]
   \<and> alternating_start 1 \<lparr>stop_called = (\<lambda>i. True), deadline_passed = (\<lambda>i. False)\<rparr> 3 None
      False (AlternatingLedAnimation (255, 0, 0)) = Some [Fill BLACK, Fill BLACK]
   \<and> blink_start 1 \<lparr>stop_called = (\<lambda>i. True), deadline_passed = (\<lambda>i. False)\<rparr> None False
      (BlinkLedAnimation (255, 0, 0) 3 False) = Some [Fill BLACK, Wait (1 / 2)]
   \<and> shown (exec_trace [Fill BLACK]
        \<lparr>shown = [(0, 0, 255), (0, 0, 255), (0, 0, 255)], pending = []\<rparr>) = replicate 3 BLACK"
  by (simp add: refill_start_def RefillLedAnimation_def refill_observe_def refill_stop_def
      bounce_start_def BounceLedAnimation_def bounce_observe_def bounce_stop_def
      chase_start_def ChaseLedAnimation_def chase_observe_def chase_stop_def
      breathe_start_def BreatheLedAnimation_def breathe_observe_def breathe_stop_def
      alternating_start_def AlternatingLedAnimation_def alternating_observe_def
      alternating_stop_def blink_start_def BlinkLedAnimation_def blink_observe_def blink_stop_def
      has_end_time_def delay_wait_def exec_trace_def dev_fill_def num_leds_def BLACK_def
      numeral_3_eq_3)

end
